theory Spec2Isabelle
  imports Main
begin

section \<open>Data model\<close>

text \<open>
  Declarations and parse nodes are JavaScript objects: the code compares them with
  \<^verbatim>\<open>===\<close>, which is identity of the object, not equality of its fields. An object is
  therefore an address (\<open>ref\<close> for declarations, \<open>nodeRef\<close> for parse nodes) and its
  fields are read from a store.
\<close>

type_synonym ref = nat
type_synonym nodeRef = nat
type_synonym scopeRef = nat

datatype DeclarationType = BuiltIn | Variable | Parameter | Function | Method | Class | Alias

record Position =
  line :: nat
  column :: nat

text \<open>\<open>endPos\<close> is the field \<^verbatim>\<open>end\<close> of the source's range.\<close>

record Range =
  start :: Position
  endPos :: Position

text \<open>
  A tree of loader actions: a module path (the empty string when there is none) and the
  implicit imports, a JavaScript \<^verbatim>\<open>Map\<close> kept in insertion order. An absent map and
  an empty one behave alike in the code (\<^verbatim>\<open>forEach\<close> runs no iteration), so both
  are the empty list.
\<close>

datatype ModuleLoaderActions =
  ModuleLoaderActions (la_path: string) (la_implicitImports: "(string \<times> ModuleLoaderActions) list")

datatype ClassType =
  ClassType (details_name: string) (isBuiltIn: bool) (classId: nat)

type_synonym SymbolFlags = nat

text \<open>
  Types, module types and symbols refer to each other: a module type holds two symbol
  tables, and a symbol made by \<^verbatim>\<open>Symbol.createWithType\<close> holds a type. A symbol table is
  a \<^verbatim>\<open>Map\<close> from names to symbols, kept as an association list in insertion order.
  The declarations of a symbol are addresses of declaration objects. \<open>moduleFields\<close> is
  the field \<^verbatim>\<open>fields\<close> of a module type.
\<close>

datatype Type =
    Unknown
  | ClassT ClassType
  | ObjectT ClassType
  | FunctionT nat
  | OverloadedFunctionT "nat list"
  | UnionT "Type list"
  | ModuleT ModuleType
and ModuleType =
  ModuleType (moduleFields: "(string \<times> Symbol) list") (loaderFields: "(string \<times> Symbol) list")
    (docString: "string option")
and Symbol =
  Symbol (flags: SymbolFlags) (declarations: "ref list") (synthesizedType: "Type option")

text \<open>
  A declaration is an object tagged by \<open>declType\<close> (the field \<^verbatim>\<open>type\<close> of the source);
  the fields of the other kinds are absent (\<open>None\<close>, \<open>False\<close>, \<open>[]\<close>), as a property
  that an object does not have reads as \<^verbatim>\<open>undefined\<close>.
\<close>

record Declaration =
  declType :: DeclarationType
  node :: "nodeRef option"
  path :: string
  declRange :: Range
  declaredType :: "Type option"
  typeAnnotationNode :: "nodeRef option"
  isConstant :: bool
  symbolName :: "string option"
  submoduleFallback :: "ref option"
  implicitImports :: "(string \<times> ModuleLoaderActions) list"

datatype ParseNodeType =
  NameNode | ImportFromAsNode | MemberAccessNode | ModuleNameNode | StringListNode | OtherNode

text \<open>
  A parse node, with the fields the code reads. \<open>aliasNode\<close> is the field \<^verbatim>\<open>alias\<close>
  of an import-from-as node, \<open>nameToken_value\<close> is \<^verbatim>\<open>nameToken.value\<close> of a name node.
\<close>

record ParseNode =
  nodeType :: ParseNodeType
  parent :: "nodeRef option"
  nameToken_value :: string
  name :: "nodeRef option"
  aliasNode :: "nodeRef option"
  leftExpression :: "nodeRef option"
  memberName :: "nodeRef option"
  nameParts :: "nodeRef list"
  typeAnnotation :: "nodeRef option"

record ImportLookupResult =
  symbolTable :: "(string \<times> Symbol) list"
  lookupDocString :: "string option"

type_synonym ImportLookup = "string \<Rightarrow> ImportLookupResult option"

record ImportResult =
  resolvedPaths :: "string list"

datatype ClassMember = ClassMember (symbol: Symbol)

datatype SymbolWithScope = SymbolWithScope (scopeSymbol: Symbol) (scope: scopeRef)

datatype ClassMemberLookupFlags = Default | DeclaredTypesOnly

text \<open>The store of declaration objects; \<open>nextRef\<close> is the next free address.\<close>

record Heap =
  declAt :: "ref \<Rightarrow> Declaration"
  nextRef :: ref

text \<open>
  What the functions of this file consume and do not compute: the parse tree, the
  side tables of the analyzer (\<^verbatim>\<open>AnalyzerNodeInfo\<close>), the scopes, the member lookups of
  \<^verbatim>\<open>TypeUtils\<close>, \<^verbatim>\<open>ModuleType.getField\<close>, \<^verbatim>\<open>ParseTreeUtils.getEnclosingClass\<close> and
  \<^verbatim>\<open>TypeUtils.isEnumClass\<close>. They are parameters of the model.
\<close>

record Env =
  nodeAt :: "nodeRef \<Rightarrow> ParseNode"
  getExpressionType :: "nodeRef \<Rightarrow> Type option"
  getImportInfo :: "nodeRef \<Rightarrow> ImportResult option"
  getScopeForNode :: "nodeRef \<Rightarrow> scopeRef option"
  lookUpSymbolRecursive :: "scopeRef \<Rightarrow> string \<Rightarrow> SymbolWithScope option"
  lookUpClassMember ::
    "ClassType \<Rightarrow> string \<Rightarrow> ImportLookup \<Rightarrow> ClassMemberLookupFlags \<Rightarrow> ClassMember option"
  lookUpObjectMember ::
    "ClassType \<Rightarrow> string \<Rightarrow> ImportLookup \<Rightarrow> ClassMemberLookupFlags \<Rightarrow> ClassMember option"
  getField :: "ModuleType \<Rightarrow> string \<Rightarrow> Symbol option"
  getEnclosingClass :: "nodeRef \<Rightarrow> bool \<Rightarrow> nodeRef option"
  isEnumClass :: "ClassType \<Rightarrow> bool"

datatype error = TypeError | AssertionError

section \<open>JavaScript helpers\<close>

text \<open>A string is truthy when it is present and not empty.\<close>

definition truthy :: "string option \<Rightarrow> bool" where
  "truthy s = (case s of None \<Rightarrow> False | Some v \<Rightarrow> v \<noteq> [])"

text \<open>\<^verbatim>\<open>Map.get\<close>.\<close>

definition mapGet :: "(string \<times> 'v) list \<Rightarrow> string \<Rightarrow> 'v option" where
  "mapGet m k = map_of m k"

text \<open>\<^verbatim>\<open>Map.set\<close>: a key already in the map keeps its place, a new key goes last.\<close>

fun mapSet :: "string \<Rightarrow> 'v \<Rightarrow> (string \<times> 'v) list \<Rightarrow> (string \<times> 'v) list" where
  "mapSet k v [] = [(k, v)]"
| "mapSet k v ((k', v') # m) = (if k' = k then (k, v) # m else (k', v') # mapSet k v m)"

text \<open>\<^verbatim>\<open>Array.findIndex\<close>; \<open>None\<close> is the source's \<open>-1\<close>.\<close>

fun findIndex :: "('a \<Rightarrow> bool) \<Rightarrow> 'a list \<Rightarrow> nat option" where
  "findIndex p [] = None"
| "findIndex p (x # xs) = (if p x then Some 0 else map_option Suc (findIndex p xs))"

section \<open>Symbols\<close>

definition hasTypeForDeclaration :: "Env \<Rightarrow> Declaration \<Rightarrow> bool" where
  "hasTypeForDeclaration E declaration =
     (case declType declaration of
        BuiltIn \<Rightarrow> True
      | Class \<Rightarrow> True
      | Function \<Rightarrow> True
      | Method \<Rightarrow> True
      | Parameter \<Rightarrow>
          (case node declaration of
             None \<Rightarrow> False
           | Some n \<Rightarrow> typeAnnotation (nodeAt E n) \<noteq> None)
      | Variable \<Rightarrow> typeAnnotationNode declaration \<noteq> None
      | Alias \<Rightarrow> False)"

definition getDeclarations :: "Symbol \<Rightarrow> ref list" where
  "getDeclarations s = declarations s"

text \<open>
  Modelled from the spec: \<^verbatim>\<open>Symbol.getTypedDeclarations\<close> (symbol.ts) is not among the
  sources. The spec (3, Symbol) makes it the subsequence of the symbol's declarations
  with an explicit or declared type, which is what \<open>hasTypeForDeclaration\<close> decides.
\<close>

definition getTypedDeclarations :: "Env \<Rightarrow> Heap \<Rightarrow> Symbol \<Rightarrow> ref list" where
  "getTypedDeclarations E hp s =
     filter (\<lambda>r. hasTypeForDeclaration E (declAt hp r)) (getDeclarations s)"

text \<open>
  Modelled from the spec: \<^verbatim>\<open>Symbol.createWithType\<close> (symbol.ts) is not among the sources.
  The spec (4.4) has it wrap a type in a symbol; the symbol has no declaration.
\<close>

definition createWithType :: "SymbolFlags \<Rightarrow> Type \<Rightarrow> Symbol" where
  "createWithType fl t = Symbol fl [] (Some t)"

definition SymbolFlags_None :: SymbolFlags where
  "SymbolFlags_None = 0"

section \<open>Declaration identity\<close>

definition areDeclarationsSame :: "Declaration \<Rightarrow> Declaration \<Rightarrow> bool" where
  "areDeclarationsSame decl1 decl2 =
     (if declType decl1 \<noteq> declType decl2 then False
      else if path decl1 \<noteq> path decl2 then False
      else if line (start (declRange decl1)) \<noteq> line (start (declRange decl2)) \<or>
              column (start (declRange decl1)) \<noteq> column (start (declRange decl2)) then False
      else True)"

definition isFunctionOrMethodDeclaration :: "Declaration \<Rightarrow> bool" where
  "isFunctionOrMethodDeclaration declaration =
     (declType declaration = Method \<or> declType declaration = Function)"

section \<open>Alias resolution\<close>

text \<open>
  \<^verbatim>\<open>resolveAliasDeclaration\<close> is a \<^verbatim>\<open>while (true)\<close> loop over \<open>curDeclaration\<close> and
  \<open>alreadyVisited\<close>, with one recursive call in tail position (the submodule fallback),
  which starts a new loop with a new \<open>declaration\<close> and an empty \<open>alreadyVisited\<close>.
  Nothing in the code bounds the number of iterations, so the model takes a budget: the
  first argument is the number of loop iterations allowed, over all nested calls, and
  the result is \<open>None\<close> when the budget is used up before a \<^verbatim>\<open>return\<close> is reached.
  The value returned is \<open>Some (r, lookups)\<close>: \<open>r\<close> is the declaration returned
  (\<open>None\<close> for \<^verbatim>\<open>undefined\<close>), and \<open>lookups\<close> lists the paths \<open>importLookup\<close> was
  called with, in order, after those of the argument \<open>lookups\<close>.
\<close>

fun resolveAliasLoop ::
  "nat \<Rightarrow> Env \<Rightarrow> Heap \<Rightarrow> ImportLookup \<Rightarrow> ref \<Rightarrow> ref \<Rightarrow> ref list \<Rightarrow> string list \<Rightarrow>
     (ref option \<times> string list) option" where
  "resolveAliasLoop 0 E hp importLookup declaration curDeclaration alreadyVisited lookups = None"
| "resolveAliasLoop (Suc budget) E hp importLookup declaration curDeclaration alreadyVisited lookups =
     (let cur = declAt hp curDeclaration in
      if declType cur \<noteq> Alias then Some (Some curDeclaration, lookups)
      else
        (case symbolName cur of
           None \<Rightarrow> Some (Some curDeclaration, lookups)
         | Some curSymbolName \<Rightarrow>
             if curSymbolName = [] then Some (Some curDeclaration, lookups)
             else
               if path cur \<noteq> [] \<and> importLookup (path cur) = None
               then Some (None, lookups @ [path cur])
               else
                 let lookupResult = (if path cur \<noteq> [] then importLookup (path cur) else None);
                     lookups' = (if path cur \<noteq> [] then lookups @ [path cur] else lookups)
                 in
                   (case (case lookupResult of
                            None \<Rightarrow> None
                          | Some r \<Rightarrow> mapGet (symbolTable r) curSymbolName) of
                      None \<Rightarrow>
                        (case submoduleFallback cur of
                           Some fallback \<Rightarrow>
                             resolveAliasLoop budget E hp importLookup fallback fallback [] lookups'
                         | None \<Rightarrow> Some (None, lookups'))
                    | Some symbolFound \<Rightarrow>
                        let typedDecls = getTypedDeclarations E hp symbolFound;
                            decls = (if length typedDecls = 0 then getDeclarations symbolFound
                                     else typedDecls)
                        in
                          if length decls = 0 then Some (None, lookups')
                          else
                            let curDeclaration' = decls ! (length decls - 1) in
                              if find (\<lambda>decl. decl = curDeclaration') alreadyVisited \<noteq> None
                              then Some (Some declaration, lookups')
                              else
                                resolveAliasLoop budget E hp importLookup declaration
                                  curDeclaration' (alreadyVisited @ [curDeclaration'])
                                  lookups')))"

definition resolveAliasDeclaration ::
  "nat \<Rightarrow> Env \<Rightarrow> Heap \<Rightarrow> ImportLookup \<Rightarrow> ref \<Rightarrow> (ref option \<times> string list) option" where
  "resolveAliasDeclaration budget E hp importLookup declaration =
     resolveAliasLoop budget E hp importLookup declaration declaration [] []"

section \<open>Type derivation\<close>

text \<open>
  The type attached to a node that may be absent: the node of a declaration, the name of
  a node. An absent node has no type.
\<close>

definition getExpressionTypeOf :: "Env \<Rightarrow> nodeRef option \<Rightarrow> Type option" where
  "getExpressionTypeOf E n = (case n of None \<Rightarrow> None | Some n' \<Rightarrow> getExpressionType E n')"

text \<open>\<^verbatim>\<open>declaration.node.name\<close> and \<^verbatim>\<open>declaration.node.typeAnnotation\<close>.\<close>

definition declNodeName :: "Env \<Rightarrow> Declaration \<Rightarrow> nodeRef option" where
  "declNodeName E declaration =
     (case node declaration of None \<Rightarrow> None | Some n \<Rightarrow> name (nodeAt E n))"

definition declNodeTypeAnnotation :: "Env \<Rightarrow> Declaration \<Rightarrow> nodeRef option" where
  "declNodeTypeAnnotation E declaration =
     (case node declaration of None \<Rightarrow> None | Some n \<Rightarrow> typeAnnotation (nodeAt E n))"

text \<open>
  Modelled from the spec: \<^verbatim>\<open>TypeUtils.convertClassToObject\<close> (typeUtils.ts) is not among
  the sources. The spec (4.3) has it convert a class type to the corresponding instance
  type; every other type is left as it is.
\<close>

definition convertClassToObject :: "Type \<Rightarrow> Type" where
  "convertClassToObject t = (case t of ClassT c \<Rightarrow> ObjectT c | _ \<Rightarrow> t)"

text \<open>
  \<^verbatim>\<open>_getEnclosingEnumClass\<close>. The source casts the type attached to the enclosing class
  node and asserts that it is a class: with no type attached, reading its category is a
  \<open>TypeError\<close>; with a type of another category, the assertion fails.
\<close>

definition getEnclosingEnumClass :: "Env \<Rightarrow> nodeRef \<Rightarrow> error + ClassType option" where
  "getEnclosingEnumClass E n =
     (case getEnclosingClass E n True of
        None \<Rightarrow> Inr None
      | Some enclosingClassNode \<Rightarrow>
          (case getExpressionType E enclosingClassNode of
             None \<Rightarrow> Inl TypeError
           | Some (ClassT enumClass) \<Rightarrow>
               if isBuiltIn enumClass \<and>
                  find (\<lambda>c. c = details_name enumClass)
                    [''Enum'', ''IntEnum'', ''Flag'', ''IntFlag''] \<noteq> None
               then Inr None
               else if isEnumClass E enumClass then Inr (Some enumClass)
               else Inr None
           | Some _ \<Rightarrow> Inl AssertionError))"

definition transformTypeForPossibleEnumClass :: "Env \<Rightarrow> nodeRef \<Rightarrow> Type \<Rightarrow> error + Type" where
  "transformTypeForPossibleEnumClass E n typeOfExpr =
     (case getEnclosingEnumClass E n of
        Inl e \<Rightarrow> Inl e
      | Inr (Some enumClass) \<Rightarrow> Inr (ObjectT enumClass)
      | Inr None \<Rightarrow> Inr typeOfExpr)"

text \<open>
  One level of string-literal forward reference is unwrapped: a \<^verbatim>\<open>StringList\<close>
  annotation node stands for its own \<^verbatim>\<open>typeAnnotation\<close>.
\<close>

definition unwrapStringList :: "Env \<Rightarrow> nodeRef option \<Rightarrow> nodeRef option" where
  "unwrapStringList E a =
     (case a of
        None \<Rightarrow> None
      | Some a' \<Rightarrow>
          if nodeType (nodeAt E a') = StringListNode then typeAnnotation (nodeAt E a')
          else Some a')"

definition getTypeForDeclaration :: "Env \<Rightarrow> Declaration \<Rightarrow> error + Type option" where
  "getTypeForDeclaration E declaration =
     (case declType declaration of
        BuiltIn \<Rightarrow> Inr (declaredType declaration)
      | Class \<Rightarrow> Inr (getExpressionTypeOf E (declNodeName E declaration))
      | Function \<Rightarrow> Inr (getExpressionTypeOf E (declNodeName E declaration))
      | Method \<Rightarrow> Inr (getExpressionTypeOf E (declNodeName E declaration))
      | Parameter \<Rightarrow>
          (case unwrapStringList E (declNodeTypeAnnotation E declaration) of
             None \<Rightarrow> Inr None
           | Some annotationNode \<Rightarrow>
               (case getExpressionType E annotationNode of
                  None \<Rightarrow> Inr None
                | Some declared \<Rightarrow> Inr (Some (convertClassToObject declared))))
      | Variable \<Rightarrow>
          (case unwrapStringList E (typeAnnotationNode declaration) of
             None \<Rightarrow> Inr None
           | Some annotationNode \<Rightarrow>
               (case getExpressionType E annotationNode of
                  None \<Rightarrow> Inr None
                | Some declared \<Rightarrow>
                    (case transformTypeForPossibleEnumClass E annotationNode declared of
                       Inl e \<Rightarrow> Inl e
                     | Inr declared' \<Rightarrow> Inr (Some (convertClassToObject declared')))))
      | Alias \<Rightarrow> Inr None)"

section \<open>Module materialization\<close>

text \<open>\<^verbatim>\<open>ModuleType.create()\<close>: no field, no loader field, no docstring.\<close>

definition ModuleType_create :: ModuleType where
  "ModuleType_create = ModuleType [] [] None"

text \<open>
  \<^verbatim>\<open>_applyLoaderActionsToModuleType\<close>. The source updates the module type in place and
  returns it; the model returns the updated value. The implicit imports are visited in
  the order of the map.
\<close>

fun applyLoaderActionsToModuleType ::
  "ImportLookup \<Rightarrow> ModuleType \<Rightarrow> ModuleLoaderActions \<Rightarrow> Type" where
  "applyLoaderActionsToModuleType importLookup moduleType (ModuleLoaderActions p imps) =
     (case (if p \<noteq> [] then
              (case importLookup p of
                 Some lookupResults \<Rightarrow>
                   Some (ModuleType (symbolTable lookupResults) (loaderFields moduleType)
                           (lookupDocString lookupResults))
               | None \<Rightarrow> None)
            else Some moduleType) of
        None \<Rightarrow> Unknown
      | Some moduleType' \<Rightarrow>
          ModuleT (ModuleType (moduleFields moduleType')
            (fold (\<lambda>entry lf.
                     mapSet (fst entry)
                       (createWithType SymbolFlags_None
                          (applyLoaderActionsToModuleType importLookup ModuleType_create
                             (snd entry))) lf)
               imps (loaderFields moduleType'))
            (docString moduleType')))"

text \<open>An alias declaration read as loader actions: its path and its implicit imports.\<close>

definition loaderActionsOf :: "Declaration \<Rightarrow> ModuleLoaderActions" where
  "loaderActionsOf declaration =
     ModuleLoaderActions (path declaration) (implicitImports declaration)"

text \<open>
  \<^verbatim>\<open>getInferredTypeOfDeclaration\<close>. The result is \<open>None\<close> when the alias resolution does
  not return within the budget, \<open>Some (Inl e)\<close> when the enum transform throws, and
  \<open>Some (Inr t)\<close> when the function returns \<open>t\<close> (\<open>None\<close> for \<^verbatim>\<open>undefined\<close>).
\<close>

definition getInferredTypeOfDeclaration ::
  "nat \<Rightarrow> Env \<Rightarrow> Heap \<Rightarrow> ImportLookup \<Rightarrow> ref \<Rightarrow> (error + Type option) option" where
  "getInferredTypeOfDeclaration budget E hp importLookup decl =
     (case resolveAliasDeclaration budget E hp importLookup decl of
        None \<Rightarrow> None
      | Some (None, _) \<Rightarrow> Some (Inr None)
      | Some (Some r, _) \<Rightarrow>
          (let resolvedDecl = declAt hp r in
           if declType resolvedDecl = Alias \<and> truthy (symbolName resolvedDecl) \<and>
              submoduleFallback resolvedDecl \<noteq> None
           then
             (case submoduleFallback resolvedDecl of
                Some fallback \<Rightarrow>
                  Some (Inr (Some (applyLoaderActionsToModuleType importLookup ModuleType_create
                                     (loaderActionsOf (declAt hp fallback)))))
              | None \<Rightarrow> Some (Inr None))
           else if declType resolvedDecl = Alias \<and> \<not> truthy (symbolName resolvedDecl)
           then
             Some (Inr (Some (applyLoaderActionsToModuleType importLookup ModuleType_create
                                (loaderActionsOf resolvedDecl))))
           else
             (case getTypeForDeclaration E resolvedDecl of
                Inl e \<Rightarrow> Some (Inl e)
              | Inr (Some declared) \<Rightarrow> Some (Inr (Some declared))
              | Inr None \<Rightarrow>
                  if declType resolvedDecl = Parameter then
                    (case declNodeName E resolvedDecl of
                       Some nm \<Rightarrow> Some (Inr (getExpressionType E nm))
                     | None \<Rightarrow> Some (Inr None))
                  else if declType resolvedDecl = Variable then
                    Some (Inr (getExpressionTypeOf E (node resolvedDecl)))
                  else Some (Inr None))))"

section \<open>Name resolution\<close>

text \<open>
  Modelled from the spec: \<^verbatim>\<open>TypeUtils.doForSubtypes\<close> (typeUtils.ts) is not among the
  sources. The spec (4.1) has the callback run for every constituent subtype of the
  possibly union type, in order. The callback of the source pushes onto an array it
  closes over, so the model passes that state through the calls; the type the source
  builds from the callback's results is dropped by the only caller.
\<close>

definition doForSubtypes :: "Type \<Rightarrow> (Type \<Rightarrow> 's \<Rightarrow> 's) \<Rightarrow> 's \<Rightarrow> 's" where
  "doForSubtypes t callback s =
     (case t of UnionT subtypes \<Rightarrow> fold callback subtypes s | _ \<Rightarrow> callback t s)"

text \<open>
  The callback of the member-access branch: the symbol of the member in one subtype, and
  the declarations it pushes.
\<close>

definition memberSymbol :: "Env \<Rightarrow> ImportLookup \<Rightarrow> string \<Rightarrow> Type \<Rightarrow> Symbol option" where
  "memberSymbol E importLookup memberNameValue subtype =
     (case subtype of
        ClassT c \<Rightarrow>
          (let member = lookUpClassMember E c memberNameValue importLookup DeclaredTypesOnly;
               member' = (case member of
                            None \<Rightarrow> lookUpClassMember E c memberNameValue importLookup Default
                          | Some m \<Rightarrow> Some m)
           in map_option symbol member')
      | ObjectT c \<Rightarrow>
          (let member = lookUpObjectMember E c memberNameValue importLookup DeclaredTypesOnly;
               member' = (case member of
                            None \<Rightarrow> lookUpObjectMember E c memberNameValue importLookup Default
                          | Some m \<Rightarrow> Some m)
           in map_option symbol member')
      | ModuleT m \<Rightarrow> getField E m memberNameValue
      | _ \<Rightarrow> None)"

definition memberAccessCallback ::
  "Env \<Rightarrow> Heap \<Rightarrow> ImportLookup \<Rightarrow> string \<Rightarrow> Type \<Rightarrow> ref list \<Rightarrow> ref list" where
  "memberAccessCallback E hp importLookup memberNameValue subtype decls =
     (case memberSymbol E importLookup memberNameValue subtype of
        None \<Rightarrow> decls
      | Some symbolFound \<Rightarrow>
          (let typedDecls = getTypedDeclarations E hp symbolFound in
           if length typedDecls > 0 then decls @ typedDecls
           else decls @ getDeclarations symbolFound))"

text \<open>
  Modelled from the spec: \<^verbatim>\<open>getEmptyRange\<close> (common/diagnostic.ts) is not among the
  sources; the spec (4.1, branch 3) calls the range it returns empty.
\<close>

definition getEmptyRange :: Range where
  "getEmptyRange = \<lparr> start = \<lparr> line = 0, column = 0 \<rparr>, endPos = \<lparr> line = 0, column = 0 \<rparr> \<rparr>"

text \<open>A new declaration object gets the next free address of the store.\<close>

definition alloc :: "Declaration \<Rightarrow> Heap \<Rightarrow> ref \<times> Heap" where
  "alloc d hp =
     (nextRef hp, \<lparr> declAt = (declAt hp)(nextRef hp := d), nextRef = Suc (nextRef hp) \<rparr>)"

text \<open>
  \<^verbatim>\<open>getDeclarationsForNameNode\<close>. The result is the array returned, \<open>None\<close> for
  \<^verbatim>\<open>undefined\<close>, and the store, which the module-name branch extends by the alias
  declaration it synthesizes.
\<close>

definition getDeclarationsForNameNode ::
  "Env \<Rightarrow> Heap \<Rightarrow> ImportLookup \<Rightarrow> nodeRef \<Rightarrow> ref list option \<times> Heap" where
  "getDeclarationsForNameNode E hp importLookup n =
     (let nameValue = nameToken_value (nodeAt E n);
          parentNode = map_option (nodeAt E) (parent (nodeAt E n))
      in
        if (case parentNode of
              None \<Rightarrow> False
            | Some pn \<Rightarrow> nodeType pn = ImportFromAsNode \<and> aliasNode pn \<noteq> None \<and> Some n = name pn)
        then (None, hp)
        else if (case parentNode of
                   None \<Rightarrow> False
                 | Some pn \<Rightarrow> nodeType pn = MemberAccessNode \<and> Some n = memberName pn)
        then
          (case parentNode of
             None \<Rightarrow> (Some [], hp)
           | Some pn \<Rightarrow>
               (case getExpressionTypeOf E (leftExpression pn) of
                  None \<Rightarrow> (Some [], hp)
                | Some baseType \<Rightarrow>
                    (let memberNameValue =
                           (case memberName pn of
                              None \<Rightarrow> []
                            | Some m \<Rightarrow> nameToken_value (nodeAt E m))
                     in (Some (doForSubtypes baseType
                                 (memberAccessCallback E hp importLookup memberNameValue) []),
                         hp))))
        else if (case parentNode of None \<Rightarrow> False | Some pn \<Rightarrow> nodeType pn = ModuleNameNode)
        then
          (case (parent (nodeAt E n), parentNode) of
             (Some p, Some pn) \<Rightarrow>
               (case (findIndex (\<lambda>part. part = n) (nameParts pn), getImportInfo E p) of
                  (Some namePartIndex, Some importInfo) \<Rightarrow>
                    if namePartIndex < length (resolvedPaths importInfo) \<and>
                       resolvedPaths importInfo ! namePartIndex \<noteq> []
                    then
                      (let aliasDeclaration =
                             \<lparr> declType = Alias, node = None,
                               path = resolvedPaths importInfo ! namePartIndex,
                               declRange = getEmptyRange, declaredType = None,
                               typeAnnotationNode = None, isConstant = False,
                               symbolName = None, submoduleFallback = None,
                               implicitImports = [] \<rparr>;
                           (r, hp') = alloc aliasDeclaration hp
                       in (Some [r], hp'))
                    else (Some [], hp)
                | _ \<Rightarrow> (Some [], hp))
           | _ \<Rightarrow> (Some [], hp))
        else
          (case getScopeForNode E n of
             None \<Rightarrow> (Some [], hp)
           | Some sc \<Rightarrow>
               (case lookUpSymbolRecursive E sc nameValue of
                  None \<Rightarrow> (None, hp)
                | Some symbolInScope \<Rightarrow>
                    (Some (getDeclarations (scopeSymbol symbolInScope)), hp))))"

section \<open>The alias graph\<close>

text \<open>
  The notions the properties below are stated with. \<open>aliasSymbol\<close> is the symbol an
  alias declaration names: the declaration is an alias with a symbol name and a path,
  \<open>importLookup\<close> answers for the path, and the symbol table has the name.
  \<open>chosenDeclarations\<close> is the declaration list preferred for a symbol: the typed
  declarations when there is one, all declarations otherwise. \<open>aliasTarget\<close> is the
  edge of the alias graph: the last chosen declaration of the symbol an alias names.
  \<open>aliasChain i d\<close> is the declaration reached from \<open>d\<close> along \<open>i\<close> edges.
\<close>

definition aliasSymbol :: "Heap \<Rightarrow> ImportLookup \<Rightarrow> ref \<Rightarrow> Symbol option" where
  "aliasSymbol hp importLookup d =
     (let cur = declAt hp d in
      if declType cur \<noteq> Alias then None
      else
        (case symbolName cur of
           None \<Rightarrow> None
         | Some nm \<Rightarrow>
             if nm = [] \<or> path cur = [] then None
             else
               (case importLookup (path cur) of
                  None \<Rightarrow> None
                | Some r \<Rightarrow> mapGet (symbolTable r) nm)))"

definition chosenDeclarations :: "Env \<Rightarrow> Heap \<Rightarrow> Symbol \<Rightarrow> ref list" where
  "chosenDeclarations E hp s =
     (if getTypedDeclarations E hp s \<noteq> [] then getTypedDeclarations E hp s
      else getDeclarations s)"

definition aliasTarget :: "Env \<Rightarrow> Heap \<Rightarrow> ImportLookup \<Rightarrow> ref \<Rightarrow> ref option" where
  "aliasTarget E hp importLookup d =
     (case aliasSymbol hp importLookup d of
        None \<Rightarrow> None
      | Some s \<Rightarrow>
          if chosenDeclarations E hp s = [] then None
          else Some (last (chosenDeclarations E hp s)))"

fun aliasChain :: "Env \<Rightarrow> Heap \<Rightarrow> ImportLookup \<Rightarrow> nat \<Rightarrow> ref \<Rightarrow> ref option" where
  "aliasChain E hp importLookup 0 d = Some d"
| "aliasChain E hp importLookup (Suc i) d =
     (case aliasTarget E hp importLookup d of
        None \<Rightarrow> None
      | Some d' \<Rightarrow> aliasChain E hp importLookup i d')"

text \<open>
  What one iteration of the loop does with \<open>curDeclaration\<close>: it returns, it calls the
  function again on the submodule fallback, or it selects the next declaration.
  \<open>iterationLookups\<close> lists the calls of \<open>importLookup\<close> it makes.
\<close>

datatype LoopStep = Return "ref option" | Fallback ref | Select ref

definition iterationLookups :: "Heap \<Rightarrow> ref \<Rightarrow> string list" where
  "iterationLookups hp cur =
     (if declType (declAt hp cur) = Alias \<and> truthy (symbolName (declAt hp cur)) \<and>
         path (declAt hp cur) \<noteq> []
      then [path (declAt hp cur)] else [])"

definition loopStep :: "Env \<Rightarrow> Heap \<Rightarrow> ImportLookup \<Rightarrow> ref \<Rightarrow> LoopStep" where
  "loopStep E hp importLookup cur =
     (if declType (declAt hp cur) \<noteq> Alias \<or> \<not> truthy (symbolName (declAt hp cur))
      then Return (Some cur)
      else if path (declAt hp cur) \<noteq> [] \<and> importLookup (path (declAt hp cur)) = None
      then Return None
      else
        (case aliasSymbol hp importLookup cur of
           None \<Rightarrow>
             (case submoduleFallback (declAt hp cur) of
                Some fallback \<Rightarrow> Fallback fallback
              | None \<Rightarrow> Return None)
         | Some s \<Rightarrow>
             if chosenDeclarations E hp s = [] then Return None
             else Select (last (chosenDeclarations E hp s))))"

text \<open>
  The symbol of a member in one variant of the base type, in the words of the spec
  (4.1): for a class, the member is looked up first among the members with an explicit
  declared type and, if none is found, again without that restriction; for an instance,
  the same two lookups through the instance; for a module, the field of that name. No
  other type has members.
\<close>

fun variantSymbol :: "Env \<Rightarrow> ImportLookup \<Rightarrow> string \<Rightarrow> Type \<Rightarrow> Symbol option" where
  "variantSymbol E importLookup nm (ClassT c) =
     (case lookUpClassMember E c nm importLookup DeclaredTypesOnly of
        Some declared \<Rightarrow> Some (symbol declared)
      | None \<Rightarrow>
          (case lookUpClassMember E c nm importLookup Default of
             Some inferred \<Rightarrow> Some (symbol inferred)
           | None \<Rightarrow> None))"
| "variantSymbol E importLookup nm (ObjectT c) =
     (case lookUpObjectMember E c nm importLookup DeclaredTypesOnly of
        Some declared \<Rightarrow> Some (symbol declared)
      | None \<Rightarrow>
          (case lookUpObjectMember E c nm importLookup Default of
             Some inferred \<Rightarrow> Some (symbol inferred)
           | None \<Rightarrow> None))"
| "variantSymbol E importLookup nm (ModuleT m) = getField E m nm"
| "variantSymbol E importLookup nm Unknown = None"
| "variantSymbol E importLookup nm (FunctionT f) = None"
| "variantSymbol E importLookup nm (OverloadedFunctionT fs) = None"
| "variantSymbol E importLookup nm (UnionT ts) = None"

text \<open>
  The declarations one variant of a base type contributes to a member access, in the
  words of the spec (4.1): the typed declarations of the member's symbol if any exist,
  else all its declarations; nothing when the variant has no such member.
\<close>

definition variantDeclarations :: "Env \<Rightarrow> Heap \<Rightarrow> ImportLookup \<Rightarrow> string \<Rightarrow> Type \<Rightarrow> ref list" where
  "variantDeclarations E hp importLookup memberNameValue variant =
     (case variantSymbol E importLookup memberNameValue variant of
        None \<Rightarrow> []
      | Some s \<Rightarrow>
          if getTypedDeclarations E hp s \<noteq> [] then getTypedDeclarations E hp s
          else getDeclarations s)"

text \<open>
  The type loader actions stand for, in the words of the spec (4.4). When the actions
  have a path, the module is looked up: a failed lookup makes the whole type \<open>Unknown\<close>,
  a successful one gives the fields and the docstring. Actions without a path give a
  module with no field and no docstring. In both cases every implicit import is
  registered under its name in the loader fields, as a symbol that wraps the type its
  own nested actions stand for. \<open>distinctImportNames\<close> says that the names of the
  implicit imports are distinct at every level, as the keys of a \<^verbatim>\<open>Map\<close> are.
\<close>

fun moduleOfActions :: "ImportLookup \<Rightarrow> ModuleLoaderActions \<Rightarrow> Type" where
  "moduleOfActions importLookup (ModuleLoaderActions p imps) =
     (if p = [] then
        ModuleT (ModuleType []
          (map (\<lambda>entry. (fst entry,
                  createWithType SymbolFlags_None (moduleOfActions importLookup (snd entry))))
             imps)
          None)
      else
        (case importLookup p of
           None \<Rightarrow> Unknown
         | Some found \<Rightarrow>
             ModuleT (ModuleType (symbolTable found)
               (map (\<lambda>entry. (fst entry,
                       createWithType SymbolFlags_None (moduleOfActions importLookup (snd entry))))
                  imps)
               (lookupDocString found))))"

fun distinctImportNames :: "ModuleLoaderActions \<Rightarrow> bool" where
  "distinctImportNames (ModuleLoaderActions p imps) =
     (distinct (map fst imps) \<and> list_all (\<lambda>entry. distinctImportNames (snd entry)) imps)"

section \<open>Example programs\<close>

text \<open>
  Small stores, import tables and a parse tree on which the properties below are
  evaluated. \<open>mkHeap ds\<close> puts the declarations \<open>ds\<close> at the addresses \<open>0, 1, \<dots>\<close>;
  \<open>mkLookup tab\<close> is an import lookup that knows the one module \<open>m\<close>, whose symbol
  table gives each name of \<open>tab\<close> a symbol with the listed declarations.
\<close>

definition lineRange :: "nat \<Rightarrow> Range" where
  "lineRange ln = \<lparr> start = \<lparr> line = ln, column = 0 \<rparr>, endPos = \<lparr> line = ln, column = 0 \<rparr> \<rparr>"

definition mkAlias :: "string \<Rightarrow> string option \<Rightarrow> nat \<Rightarrow> ref option \<Rightarrow> Declaration" where
  "mkAlias p nm ln fb =
     \<lparr> declType = Alias, node = None, path = p, declRange = lineRange ln, declaredType = None,
       typeAnnotationNode = None, isConstant = False, symbolName = nm, submoduleFallback = fb,
       implicitImports = [] \<rparr>"

definition mkDecl :: "DeclarationType \<Rightarrow> nodeRef option \<Rightarrow> nat \<Rightarrow> Declaration" where
  "mkDecl k ann ln =
     \<lparr> declType = k, node = Some 0, path = ''m'', declRange = lineRange ln,
       declaredType = None, typeAnnotationNode = ann, isConstant = False, symbolName = None,
       submoduleFallback = None, implicitImports = [] \<rparr>"

definition mkHeap :: "Declaration list \<Rightarrow> Heap" where
  "mkHeap ds =
     \<lparr> declAt = (\<lambda>r. if r < length ds then ds ! r else mkDecl Variable None 0),
       nextRef = length ds \<rparr>"

definition mkLookup :: "(string \<times> ref list) list \<Rightarrow> ImportLookup" where
  "mkLookup tab =
     (\<lambda>p. if p = ''m''
          then Some \<lparr> symbolTable = map (\<lambda>entry. (fst entry, Symbol 0 (snd entry) None)) tab,
                      lookupDocString = None \<rparr>
          else None)"

definition plainNode :: ParseNode where
  "plainNode =
     \<lparr> nodeType = OtherNode, parent = None, nameToken_value = [], name = None,
       aliasNode = None, leftExpression = None, memberName = None, nameParts = [],
       typeAnnotation = None \<rparr>"

definition nameNode :: "string \<Rightarrow> nodeRef \<Rightarrow> ParseNode" where
  "nameNode v p = plainNode \<lparr> nodeType := NameNode, parent := Some p, nameToken_value := v \<rparr>"

text \<open>
  The parse tree: \<open>20\<close> is the member name of the access \<open>21\<close> on a base \<open>22\<close> of union
  type (the class \<open>A\<close>, whose member \<open>attr\<close> is found by the unrestricted lookup only, an
  instance of \<open>B\<close>, whose member is found by both lookups with different symbols, a
  module with the field \<open>attr\<close>, and the class \<open>C\<close>, which has no such member), \<open>23\<close> the member name of the access \<open>24\<close> on a base \<open>25\<close> that is an instance of
  \<open>B\<close>; \<open>30\<close> is the source name and \<open>32\<close> the alias of the import-from-as clause \<open>31\<close>;
  \<open>56\<close> is a string-literal annotation that stands for the annotation \<open>50\<close>. The
  annotations \<open>50\<close>, \<open>52\<close> and \<open>54\<close> all denote \<open>int\<close>; they stand in the bodies of the
  classes \<open>51\<close> (\<open>Color\<close>, an enumeration), \<open>53\<close> (\<open>Plain\<close>, not an enumeration) and
  \<open>55\<close> (the built-in \<open>IntEnum\<close>).
\<close>

definition clsA :: ClassType where
  "clsA = ClassType ''A'' False 10"

definition clsB :: ClassType where
  "clsB = ClassType ''B'' False 11"

definition clsC :: ClassType where
  "clsC = ClassType ''C'' False 12"

definition clsInt :: ClassType where
  "clsInt = ClassType ''int'' True 1"

definition clsColor :: ClassType where
  "clsColor = ClassType ''Color'' False 2"

definition clsPlain :: ClassType where
  "clsPlain = ClassType ''Plain'' False 3"

definition clsIntEnum :: ClassType where
  "clsIntEnum = ClassType ''IntEnum'' True 4"

definition exNodes :: "(nodeRef \<times> ParseNode) list" where
  "exNodes =
     [(20, nameNode ''attr'' 21),
      (21, plainNode \<lparr> nodeType := MemberAccessNode, leftExpression := Some 22,
                       memberName := Some 20 \<rparr>),
      (23, nameNode ''attr'' 24),
      (24, plainNode \<lparr> nodeType := MemberAccessNode, leftExpression := Some 25,
                       memberName := Some 23 \<rparr>),
      (30, nameNode ''X'' 31),
      (31, plainNode \<lparr> nodeType := ImportFromAsNode, name := Some 30, aliasNode := Some 32 \<rparr>),
      (32, nameNode ''Y'' 31),
      (56, plainNode \<lparr> nodeType := StringListNode, typeAnnotation := Some 50 \<rparr>)]"

definition exTypes :: "(nodeRef \<times> Type) list" where
  "exTypes =
     [(22, UnionT [ClassT clsA, ObjectT clsB,
                   ModuleT (ModuleType [(''attr'', Symbol 0 [4] None)] [] None), ClassT clsC]),
      (25, ObjectT clsB),
      (50, ClassT clsInt), (51, ClassT clsColor),
      (52, ClassT clsInt), (53, ClassT clsPlain),
      (54, ClassT clsInt), (55, ClassT clsIntEnum)]"

definition exEnv :: Env where
  "exEnv =
     \<lparr> nodeAt = (\<lambda>n. case map_of exNodes n of None \<Rightarrow> plainNode | Some x \<Rightarrow> x),
       getExpressionType = map_of exTypes,
       getImportInfo = (\<lambda>n. None),
       getScopeForNode = (\<lambda>n. None),
       lookUpSymbolRecursive = (\<lambda>s nm. None),
       lookUpClassMember =
         (\<lambda>c nm il fl. if classId c = 10 \<and> nm = ''attr'' \<and> fl = Default
                       then Some (ClassMember (Symbol 0 [2, 4] None)) else None),
       lookUpObjectMember =
         (\<lambda>c nm il fl. if classId c = 11 \<and> nm = ''attr''
                       then (if fl = DeclaredTypesOnly
                             then Some (ClassMember (Symbol 0 [1, 2] None))
                             else Some (ClassMember (Symbol 0 [4] None)))
                       else None),
       getField = (\<lambda>m nm. mapGet (moduleFields m) nm),
       getEnclosingClass = (\<lambda>n stopAtFunction. map_of [(50, 51), (52, 53), (54, 55)] n),
       isEnumClass = (\<lambda>c. classId c = 2 \<or> classId c = 4) \<rparr>"

text \<open>
  \<open>heapA\<close>: the alias \<open>0\<close> names \<open>1\<close>, \<open>1\<close> names \<open>2\<close>, and \<open>2\<close> names itself: a tail of
  two declarations before a cycle of length one.
\<close>

definition heapA :: Heap where
  "heapA = mkHeap [mkAlias ''m'' (Some ''a'') 0 None, mkAlias ''m'' (Some ''b'') 1 None,
                   mkAlias ''m'' (Some ''c'') 2 None]"

definition lookupA :: ImportLookup where
  "lookupA = mkLookup [(''a'', [1]), (''b'', [2]), (''c'', [2])]"

text \<open>
  \<open>heapB\<close>: the alias \<open>0\<close> names \<open>1\<close>, \<open>1\<close> names \<open>2\<close>, \<open>2\<close> names the variable \<open>3\<close>.
  The aliases \<open>1\<close> and \<open>2\<close> are two objects of the same kind, path and start position.
\<close>

definition heapB :: Heap where
  "heapB = mkHeap [mkAlias ''m'' (Some ''a'') 0 None, mkAlias ''m'' (Some ''b'') 7 None,
                   mkAlias ''m'' (Some ''c'') 7 None, mkDecl Variable None 3]"

definition lookupB :: ImportLookup where
  "lookupB = mkLookup [(''a'', [1]), (''b'', [2]), (''c'', [3])]"

text \<open>
  \<open>heapF\<close>: the alias \<open>0\<close> names a symbol its module does not have and falls back to the
  alias \<open>1\<close>. With \<open>lookupF\<close> the alias \<open>1\<close> names itself; with \<open>lookupN\<close> it names
  \<open>0\<close>, so that the cycle passes through the fallback.
\<close>

definition heapF :: Heap where
  "heapF = mkHeap [mkAlias ''m'' (Some ''missing'') 0 (Some 1), mkAlias ''m'' (Some ''s'') 1 None]"

definition lookupF :: ImportLookup where
  "lookupF = mkLookup [(''s'', [1])]"

definition lookupN :: ImportLookup where
  "lookupN = mkLookup [(''s'', [0])]"

text \<open>
  \<open>heapT\<close>: the symbol \<open>g\<close> has an annotated variable \<open>1\<close> and then an unannotated one
  \<open>2\<close>; \<open>u\<close> has two unannotated variables; \<open>e\<close> has no declaration; \<open>h\<close> has three
  class declarations. The aliases \<open>0\<close>, \<open>3\<close>, \<open>5\<close> and \<open>6\<close> name them.
\<close>

definition heapT :: Heap where
  "heapT = mkHeap
     [mkAlias ''m'' (Some ''g'') 0 None, mkDecl Variable (Some 56) 1, mkDecl Variable None 2,
      mkAlias ''m'' (Some ''u'') 3 None, mkDecl Variable None 4,
      mkAlias ''m'' (Some ''e'') 5 None,
      mkAlias ''m'' (Some ''h'') 6 None, mkDecl Class None 7, mkDecl Class None 8,
      mkDecl Class None 9]"

definition lookupT :: ImportLookup where
  "lookupT = mkLookup [(''g'', [1, 2]), (''u'', [2, 4]), (''e'', []), (''h'', [7, 8, 9])]"

text \<open>
  \<open>heapP\<close>: the alias \<open>0\<close> denotes the package \<open>pkg/__init__\<close> with the implicit import
  \<open>sub\<close>; the alias \<open>2\<close> names the symbol \<open>pkg\<close> of the module \<open>user\<close>, whose one
  declaration is \<open>0\<close>. The alias \<open>3\<close> denotes the same package with the implicit import
  \<open>ns\<close>, which has no path of its own and the implicit import \<open>deep\<close> of path \<open>pkg/sub\<close>.
\<close>

definition heapP :: Heap where
  "heapP = mkHeap
     [(mkAlias ''pkg/__init__'' None 0 None)
        \<lparr> implicitImports := [(''sub'', ModuleLoaderActions ''pkg/sub'' [])] \<rparr>,
      mkDecl Variable None 1,
      mkAlias ''user'' (Some ''pkg'') 2 None,
      (mkAlias ''pkg/__init__'' None 3 None)
        \<lparr> implicitImports :=
            [(''ns'', ModuleLoaderActions [] [(''deep'', ModuleLoaderActions ''pkg/sub'' [])])] \<rparr>]"

definition lookupP :: ImportLookup where
  "lookupP =
     (\<lambda>p. if p = ''pkg/__init__''
          then Some \<lparr> symbolTable = [(''x'', Symbol 0 [1] None)],
                      lookupDocString = Some ''package'' \<rparr>
          else if p = ''pkg/sub''
          then Some \<lparr> symbolTable = [(''y'', Symbol 0 [1] None)],
                      lookupDocString = Some ''submodule'' \<rparr>
          else if p = ''user''
          then Some \<lparr> symbolTable = [(''pkg'', Symbol 0 [0] None)], lookupDocString = None \<rparr>
          else None)"

section \<open>One iteration of the loop\<close>

declare resolveAliasLoop.simps(2) [simp del]

lemma find_eq_None_iff: "(find (\<lambda>x. x = c) xs = None) = (c \<notin> set xs)"
  by (auto simp: find_None_iff)

lemma find_eq_Some_iff: "(\<exists>y. find (\<lambda>x. x = c) xs = Some y) = (c \<in> set xs)"
  using find_eq_None_iff [of c xs] by (cases "find (\<lambda>x. x = c) xs") auto

lemma aliasSymbol_SomeD:
  assumes "aliasSymbol hp importLookup cur = Some s"
  obtains nm r where "declType (declAt hp cur) = Alias" "symbolName (declAt hp cur) = Some nm"
    "nm \<noteq> []" "path (declAt hp cur) \<noteq> []" "importLookup (path (declAt hp cur)) = Some r"
    "mapGet (symbolTable r) nm = Some s"
  using assms unfolding aliasSymbol_def Let_def
  by (auto split: option.splits if_splits)

lemma resolveAliasLoop_symbol:
  assumes "aliasSymbol hp importLookup cur = Some s"
  shows "resolveAliasLoop (Suc n) E hp importLookup decl cur visited lk =
     (if chosenDeclarations E hp s = [] then Some (None, lk @ [path (declAt hp cur)])
      else if last (chosenDeclarations E hp s) \<in> set visited
      then Some (Some decl, lk @ [path (declAt hp cur)])
      else resolveAliasLoop n E hp importLookup decl (last (chosenDeclarations E hp s))
             (visited @ [last (chosenDeclarations E hp s)]) (lk @ [path (declAt hp cur)]))"
proof -
  from assms obtain nm r where f: "declType (declAt hp cur) = Alias"
    "symbolName (declAt hp cur) = Some nm" "nm \<noteq> []" "path (declAt hp cur) \<noteq> []"
    "importLookup (path (declAt hp cur)) = Some r" "mapGet (symbolTable r) nm = Some s"
    by (rule aliasSymbol_SomeD)
  show ?thesis
    by (simp add: resolveAliasLoop.simps(2) Let_def f chosenDeclarations_def find_eq_None_iff
        find_eq_Some_iff last_conv_nth)
qed

lemma resolveAliasLoop_select:
  assumes "aliasTarget E hp importLookup cur = Some c"
  shows "resolveAliasLoop (Suc n) E hp importLookup decl cur visited lk =
     (if c \<in> set visited then Some (Some decl, lk @ [path (declAt hp cur)])
      else resolveAliasLoop n E hp importLookup decl c (visited @ [c])
             (lk @ [path (declAt hp cur)]))"
proof -
  from assms obtain s where s: "aliasSymbol hp importLookup cur = Some s"
    and c: "chosenDeclarations E hp s \<noteq> []" "c = last (chosenDeclarations E hp s)"
    unfolding aliasTarget_def by (auto split: option.splits if_splits)
  show ?thesis using c by (simp add: resolveAliasLoop_symbol [OF s])
qed

lemma resolveAliasLoop_terminal:
  assumes "declType (declAt hp cur) \<noteq> Alias \<or> \<not> truthy (symbolName (declAt hp cur))"
  shows "resolveAliasLoop (Suc n) E hp importLookup decl cur visited lk = Some (Some cur, lk)"
  using assms by (auto simp: resolveAliasLoop.simps(2) truthy_def Let_def split: option.splits)

lemma resolveAliasLoop_Suc:
  "resolveAliasLoop (Suc n) E hp importLookup decl cur visited lk =
     (case loopStep E hp importLookup cur of
        Return r \<Rightarrow> Some (r, lk @ iterationLookups hp cur)
      | Fallback f \<Rightarrow>
          resolveAliasLoop n E hp importLookup f f [] (lk @ iterationLookups hp cur)
      | Select c \<Rightarrow>
          if c \<in> set visited then Some (Some decl, lk @ iterationLookups hp cur)
          else resolveAliasLoop n E hp importLookup decl c (visited @ [c])
                 (lk @ iterationLookups hp cur))"
proof (cases "declType (declAt hp cur) \<noteq> Alias \<or> \<not> truthy (symbolName (declAt hp cur))")
  case True
  then show ?thesis
    by (auto simp: resolveAliasLoop_terminal loopStep_def iterationLookups_def)
next
  case False
  then obtain nm where a: "declType (declAt hp cur) = Alias"
    "symbolName (declAt hp cur) = Some nm" "nm \<noteq> []"
    by (auto simp: truthy_def split: option.splits)
  show ?thesis
  proof (cases "aliasSymbol hp importLookup cur")
    case (Some s)
    have p: "path (declAt hp cur) \<noteq> []" "importLookup (path (declAt hp cur)) \<noteq> None"
      using Some by (auto elim: aliasSymbol_SomeD)
    show ?thesis
      using p by (auto simp: resolveAliasLoop_symbol [OF Some] loopStep_def iterationLookups_def
          Some a truthy_def)
  next
    case None
    show ?thesis
    proof (cases "path (declAt hp cur) = []")
      case True
      then show ?thesis
        by (simp add: resolveAliasLoop.simps(2) Let_def a truthy_def loopStep_def
            iterationLookups_def None split: option.splits)
    next
      case False
      show ?thesis
      proof (cases "importLookup (path (declAt hp cur))")
        case n: None
        then show ?thesis
          by (simp add: resolveAliasLoop.simps(2) Let_def a truthy_def loopStep_def
              iterationLookups_def False)
      next
        case (Some r)
        with None False have "mapGet (symbolTable r) nm = None"
          by (simp add: aliasSymbol_def Let_def a)
        then show ?thesis
          by (simp add: resolveAliasLoop.simps(2) Let_def a truthy_def loopStep_def
              iterationLookups_def None False Some split: option.splits)
      qed
    qed
  qed
qed

lemma resolveAliasLoop_lookups:
  "resolveAliasLoop n E hp importLookup decl cur visited lk =
     map_option (\<lambda>(r, t). (r, lk @ t)) (resolveAliasLoop n E hp importLookup decl cur visited [])"
proof (induction n arbitrary: decl cur visited lk)
  case 0
  show ?case by simp
next
  case (Suc n)
  show ?case
  proof (cases "loopStep E hp importLookup cur")
    case (Return r)
    then show ?thesis by (simp add: resolveAliasLoop_Suc)
  next
    case (Fallback f)
    show ?thesis
      using Suc.IH [of f f "[]" "lk @ iterationLookups hp cur"]
        Suc.IH [of f f "[]" "iterationLookups hp cur"]
      by (simp add: resolveAliasLoop_Suc Fallback option.map_comp comp_def case_prod_beta)
  next
    case (Select c)
    show ?thesis
      using Suc.IH [of decl c "visited @ [c]" "lk @ iterationLookups hp cur"]
        Suc.IH [of decl c "visited @ [c]" "iterationLookups hp cur"]
      by (simp add: resolveAliasLoop_Suc Select option.map_comp comp_def case_prod_beta)
  qed
qed

lemma resolveAliasLoop_result_lookups:
  "map_option fst (resolveAliasLoop n E hp importLookup decl cur visited lk) =
   map_option fst (resolveAliasLoop n E hp importLookup decl cur visited [])"
  by (subst resolveAliasLoop_lookups) (simp add: option.map_comp comp_def case_prod_beta)

lemma resolveAliasLoop_mono:
  "resolveAliasLoop n E hp importLookup decl cur visited lk = Some x \<Longrightarrow>
   resolveAliasLoop (n + m) E hp importLookup decl cur visited lk = Some x"
proof (induction n arbitrary: decl cur visited lk)
  case 0
  then show ?case by simp
next
  case (Suc n)
  then show ?case
    by (cases "loopStep E hp importLookup cur")
      (auto simp: resolveAliasLoop_Suc split: if_splits)
qed

lemma aliasTarget_loopStep:
  "aliasTarget E hp importLookup cur = Some c \<Longrightarrow> loopStep E hp importLookup cur = Select c"
  by (auto simp: aliasTarget_def loopStep_def truthy_def split: option.splits if_splits
      elim!: aliasSymbol_SomeD)

lemma resolveAliasLoop_cycle:
  assumes "aliasChain E hp importLookup j cur = Some x" and "1 \<le> j" and "j \<le> n"
    and "x \<in> set visited \<or> (\<exists>i. 1 \<le> i \<and> i < j \<and> aliasChain E hp importLookup i cur = Some x)"
  shows "map_option fst (resolveAliasLoop n E hp importLookup decl cur visited lk) =
         Some (Some decl)"
  using assms
proof (induction n arbitrary: cur visited j lk)
  case 0
  then show ?case by simp
next
  case (Suc n)
  from Suc.prems(1,2) obtain j' where j: "j = Suc j'" by (cases j) auto
  from Suc.prems(1) j obtain c where c: "aliasTarget E hp importLookup cur = Some c"
    and ch: "aliasChain E hp importLookup j' c = Some x"
    by (auto split: option.splits)
  show ?case
  proof (cases "c \<in> set visited")
    case True
    then show ?thesis by (simp add: resolveAliasLoop_select [OF c])
  next
    case False
    have j'pos: "1 \<le> j'"
    proof (rule ccontr)
      assume "\<not> 1 \<le> j'"
      then have "j' = 0" by simp
      with ch have "x = c" by simp
      with Suc.prems(4) False j \<open>j' = 0\<close> show False by auto
    qed
    have cond: "x \<in> set (visited @ [c]) \<or>
        (\<exists>i. 1 \<le> i \<and> i < j' \<and> aliasChain E hp importLookup i c = Some x)"
    proof -
      from Suc.prems(4) show ?thesis
      proof
        assume "x \<in> set visited" then show ?thesis by simp
      next
        assume "\<exists>i. 1 \<le> i \<and> i < j \<and> aliasChain E hp importLookup i cur = Some x"
        then obtain i where i: "1 \<le> i" "i < j" "aliasChain E hp importLookup i cur = Some x"
          by blast
        then obtain i' where i': "i = Suc i'" by (cases i) auto
        with i(3) c have ci: "aliasChain E hp importLookup i' c = Some x" by simp
        show ?thesis
        proof (cases i')
          case 0
          with ci have "x = c" by simp
          then show ?thesis by simp
        next
          case (Suc k)
          with ci i(2) i' j show ?thesis by auto
        qed
      qed
    qed
    have "map_option fst (resolveAliasLoop n E hp importLookup decl c (visited @ [c])
            (lk @ [path (declAt hp cur)])) = Some (Some decl)"
      using Suc.IH [OF ch j'pos _ cond] Suc.prems(3) j by simp
    with False show ?thesis by (simp add: resolveAliasLoop_select [OF c])
  qed
qed

lemma aliasChain_add:
  "aliasChain E hp importLookup (a + b) d =
     (case aliasChain E hp importLookup a d of
        None \<Rightarrow> None
      | Some e \<Rightarrow> aliasChain E hp importLookup b e)"
  by (induction a arbitrary: d) (auto split: option.splits)

lemma aliasChain_Suc_end:
  "aliasChain E hp importLookup (Suc a) d =
     (case aliasChain E hp importLookup a d of
        None \<Rightarrow> None
      | Some e \<Rightarrow> aliasTarget E hp importLookup e)"
  using aliasChain_add [of E hp importLookup a 1 d] by (auto split: option.splits)

lemma resolveAliasLoop_guard:
  assumes "aliasChain E hp importLookup (Suc j) cur = Some x"
    and "\<forall>m y. 1 \<le> m \<and> m \<le> j \<and> aliasChain E hp importLookup m cur = Some y \<longrightarrow>
           y \<notin> set visited \<and> (\<forall>i. 1 \<le> i \<and> i < m \<longrightarrow> aliasChain E hp importLookup i cur \<noteq> Some y)"
  shows "map_option fst (resolveAliasLoop (Suc j) E hp importLookup decl cur visited lk) =
         (if x \<in> set visited \<or> (\<exists>i. 1 \<le> i \<and> i \<le> j \<and> aliasChain E hp importLookup i cur = Some x)
          then Some (Some decl) else None)"
  using assms
proof (induction j arbitrary: cur visited lk)
  case 0
  then have "aliasTarget E hp importLookup cur = Some x" by (auto split: option.splits)
  then show ?case by (simp add: resolveAliasLoop_select)
next
  case (Suc j)
  from Suc.prems(1) obtain c where c: "aliasTarget E hp importLookup cur = Some c"
    and ch: "aliasChain E hp importLookup (Suc j) c = Some x"
    by (auto split: option.splits)
  have c1: "aliasChain E hp importLookup 1 cur = Some c" using c by simp
  have fresh: "c \<notin> set visited" using Suc.prems(2) c1 by (metis le_add1 le_refl plus_1_eq_Suc)
  have shift: "aliasChain E hp importLookup (Suc i) cur = aliasChain E hp importLookup i c" for i
    using c by simp
  have hyp: "\<forall>m y. 1 \<le> m \<and> m \<le> j \<and> aliasChain E hp importLookup m c = Some y \<longrightarrow>
      y \<notin> set (visited @ [c]) \<and>
      (\<forall>i. 1 \<le> i \<and> i < m \<longrightarrow> aliasChain E hp importLookup i c \<noteq> Some y)"
  proof (intro allI impI)
    fix m y
    assume m: "1 \<le> m \<and> m \<le> j \<and> aliasChain E hp importLookup m c = Some y"
    then have "1 \<le> Suc m \<and> Suc m \<le> Suc j \<and> aliasChain E hp importLookup (Suc m) cur = Some y"
      using shift by simp
    with Suc.prems(2) have a: "y \<notin> set visited"
      and b: "\<forall>i. 1 \<le> i \<and> i < Suc m \<longrightarrow> aliasChain E hp importLookup i cur \<noteq> Some y"
      by blast+
    from b c1 m have "y \<noteq> c" by (metis le_refl le_imp_less_Suc)
    moreover have "\<forall>i. 1 \<le> i \<and> i < m \<longrightarrow> aliasChain E hp importLookup i c \<noteq> Some y"
    proof (intro allI impI)
      fix i assume "1 \<le> i \<and> i < m"
      then have "1 \<le> Suc i \<and> Suc i < Suc m" by simp
      with b have "aliasChain E hp importLookup (Suc i) cur \<noteq> Some y" by blast
      then show "aliasChain E hp importLookup i c \<noteq> Some y" using shift by simp
    qed
    ultimately show "y \<notin> set (visited @ [c]) \<and>
      (\<forall>i. 1 \<le> i \<and> i < m \<longrightarrow> aliasChain E hp importLookup i c \<noteq> Some y)"
      using a by simp
  qed
  have eq: "(x \<in> set (visited @ [c]) \<or>
        (\<exists>i. 1 \<le> i \<and> i \<le> j \<and> aliasChain E hp importLookup i c = Some x)) =
      (x \<in> set visited \<or>
        (\<exists>i. 1 \<le> i \<and> i \<le> Suc j \<and> aliasChain E hp importLookup i cur = Some x))"
  proof -
    have "(\<exists>i. 1 \<le> i \<and> i \<le> Suc j \<and> aliasChain E hp importLookup i cur = Some x) =
        (x = c \<or> (\<exists>i. 1 \<le> i \<and> i \<le> j \<and> aliasChain E hp importLookup i c = Some x))"
    proof
      assume "\<exists>i. 1 \<le> i \<and> i \<le> Suc j \<and> aliasChain E hp importLookup i cur = Some x"
      then obtain i where i: "1 \<le> i" "i \<le> Suc j" "aliasChain E hp importLookup i cur = Some x"
        by blast
      then obtain i' where i': "i = Suc i'" by (cases i) auto
      show "x = c \<or> (\<exists>i. 1 \<le> i \<and> i \<le> j \<and> aliasChain E hp importLookup i c = Some x)"
      proof (cases i')
        case 0
        with i i' c1 show ?thesis by simp
      next
        case (Suc i'')
        with i i' shift [of i'] show ?thesis by auto
      qed
    next
      assume "x = c \<or> (\<exists>i. 1 \<le> i \<and> i \<le> j \<and> aliasChain E hp importLookup i c = Some x)"
      then show "\<exists>i. 1 \<le> i \<and> i \<le> Suc j \<and> aliasChain E hp importLookup i cur = Some x"
      proof
        assume "x = c"
        with c1 show ?thesis by (intro exI [of _ 1]) simp
      next
        assume "\<exists>i. 1 \<le> i \<and> i \<le> j \<and> aliasChain E hp importLookup i c = Some x"
        then obtain i where "1 \<le> i" "i \<le> j" "aliasChain E hp importLookup i c = Some x" by blast
        then show ?thesis using shift [of i] by (intro exI [of _ "Suc i"]) simp
      qed
    qed
    then show ?thesis by auto
  qed
  have "map_option fst (resolveAliasLoop (Suc (Suc j)) E hp importLookup decl cur visited lk) =
      map_option fst (resolveAliasLoop (Suc j) E hp importLookup decl c (visited @ [c])
        (lk @ [path (declAt hp cur)]))"
    using fresh by (simp add: resolveAliasLoop_select [OF c])
  also have "\<dots> = (if x \<in> set (visited @ [c]) \<or>
        (\<exists>i. 1 \<le> i \<and> i \<le> j \<and> aliasChain E hp importLookup i c = Some x)
      then Some (Some decl) else None)"
    by (rule Suc.IH [OF ch hyp])
  finally show ?case using eq by simp
qed

lemma resolveAliasLoop_idem:
  assumes "map_option fst (resolveAliasLoop n E hp importLookup decl cur visited lk) = Some (Some r)"
  shows "r = decl \<or>
         (\<exists>m \<le> n. map_option fst (resolveAliasLoop m E hp importLookup r r [] []) = Some (Some r))"
  using assms
proof (induction n arbitrary: decl cur visited lk)
  case 0
  then show ?case by simp
next
  case (Suc n)
  show ?case
  proof (cases "loopStep E hp importLookup cur")
    case (Return res)
    with Suc.prems have r: "res = Some r" by (simp add: resolveAliasLoop_Suc)
    with Return have t: "declType (declAt hp cur) \<noteq> Alias \<or> \<not> truthy (symbolName (declAt hp cur))"
      and rc: "r = cur"
      by (auto simp: loopStep_def split: if_splits option.splits)
    have "map_option fst (resolveAliasLoop (Suc 0) E hp importLookup r r [] []) = Some (Some r)"
      using t rc by (simp add: resolveAliasLoop_terminal)
    then show ?thesis by (intro disjI2 exI [of _ "Suc 0"]) simp
  next
    case (Fallback f)
    with Suc.prems have sub: "map_option fst (resolveAliasLoop n E hp importLookup f f []
        (lk @ iterationLookups hp cur)) = Some (Some r)"
      by (simp add: resolveAliasLoop_Suc)
    from Suc.IH [OF sub] show ?thesis
    proof
      assume "r = f"
      with sub have "map_option fst (resolveAliasLoop n E hp importLookup r r [] []) = Some (Some r)"
        using resolveAliasLoop_result_lookups by metis
      then show ?thesis by (intro disjI2 exI [of _ n]) simp
    next
      assume "\<exists>m\<le>n. map_option fst (resolveAliasLoop m E hp importLookup r r [] []) = Some (Some r)"
      then show ?thesis using le_Suc_eq by blast
    qed
  next
    case (Select c)
    show ?thesis
    proof (cases "c \<in> set visited")
      case True
      with Suc.prems Select show ?thesis by (simp add: resolveAliasLoop_Suc)
    next
      case False
      with Suc.prems Select have sub: "map_option fst (resolveAliasLoop n E hp importLookup decl c
          (visited @ [c]) (lk @ iterationLookups hp cur)) = Some (Some r)"
        by (simp add: resolveAliasLoop_Suc)
      from Suc.IH [OF sub] show ?thesis using le_Suc_eq by blast
    qed
  qed
qed

lemma resolveAliasLoop_result_mono:
  assumes "map_option fst (resolveAliasLoop m E hp importLookup decl cur visited lk) = Some x"
    and "m \<le> n"
  shows "map_option fst (resolveAliasLoop n E hp importLookup decl cur visited lk) = Some x"
proof -
  from assms(1) obtain y where y: "resolveAliasLoop m E hp importLookup decl cur visited lk = Some y"
    and x: "fst y = x" by auto
  from assms(2) obtain d where "n = m + d" using le_Suc_ex by blast
  with resolveAliasLoop_mono [OF y, of d] x show ?thesis by simp
qed

lemma mapSet_fresh: "k \<notin> fst ` set m \<Longrightarrow> mapSet k v m = m @ [(k, v)]"
  by (induction m) auto

lemma fold_mapSet_distinct:
  "distinct (map fst acc @ map fst imps) \<Longrightarrow>
   fold (\<lambda>entry lf. mapSet (fst entry) (g (snd entry)) lf) imps acc =
     acc @ map (\<lambda>entry. (fst entry, g (snd entry))) imps"
proof (induction imps arbitrary: acc)
  case Nil
  then show ?case by simp
next
  case (Cons e imps)
  from Cons.prems have fresh: "fst e \<notin> fst ` set acc" by auto
  from Cons.prems have "distinct (map fst (acc @ [(fst e, g (snd e))]) @ map fst imps)" by auto
  from Cons.IH [OF this] show ?case by (simp add: mapSet_fresh [OF fresh])
qed

lemma memberSymbol_variantSymbol:
  "memberSymbol E importLookup nm v = variantSymbol E importLookup nm v"
  by (cases v) (simp_all add: memberSymbol_def Let_def split: option.splits)

lemma memberAccessCallback_append:
  "memberAccessCallback E hp importLookup nm v decls =
     decls @ variantDeclarations E hp importLookup nm v"
  by (simp add: memberAccessCallback_def variantDeclarations_def memberSymbol_variantSymbol
      Let_def split: option.splits)

lemma fold_memberAccessCallback:
  "fold (memberAccessCallback E hp importLookup nm) vs decls =
     decls @ concat (map (variantDeclarations E hp importLookup nm) vs)"
  by (induction vs arbitrary: decls) (simp_all add: memberAccessCallback_append)

lemma applyLoaderActions_moduleOfActions:
  "distinctImportNames acts \<Longrightarrow>
   applyLoaderActionsToModuleType importLookup ModuleType_create acts =
     moduleOfActions importLookup acts"
proof (induction acts)
  case (ModuleLoaderActions p imps)
  from ModuleLoaderActions.prems have d: "distinct (map fst imps)"
    and sub: "\<And>entry. entry \<in> set imps \<Longrightarrow> distinctImportNames (snd entry)"
    by (auto simp: list_all_iff)
  have each: "applyLoaderActionsToModuleType importLookup ModuleType_create (snd entry) =
      moduleOfActions importLookup (snd entry)" if "entry \<in> set imps" for entry
    using ModuleLoaderActions.IH [OF that _ sub [OF that]] by (cases entry) auto
  have loaded: "fold (\<lambda>entry lf. mapSet (fst entry)
            (createWithType SymbolFlags_None
               (applyLoaderActionsToModuleType importLookup ModuleType_create (snd entry))) lf)
          imps [] =
        map (\<lambda>entry. (fst entry,
               createWithType SymbolFlags_None (moduleOfActions importLookup (snd entry)))) imps"
  proof -
    have "fold (\<lambda>entry lf. mapSet (fst entry)
            (createWithType SymbolFlags_None
               (applyLoaderActionsToModuleType importLookup ModuleType_create (snd entry))) lf)
          imps [] =
        [] @ map (\<lambda>entry. (fst entry,
               createWithType SymbolFlags_None
                 (applyLoaderActionsToModuleType importLookup ModuleType_create (snd entry)))) imps"
      using d by (intro fold_mapSet_distinct) simp
    also have "\<dots> = map (\<lambda>entry. (fst entry,
               createWithType SymbolFlags_None (moduleOfActions importLookup (snd entry)))) imps"
      using each by simp
    finally show ?thesis .
  qed
  have empty: "moduleFields ModuleType_create = []" "loaderFields ModuleType_create = []"
    "docString ModuleType_create = None"
    by (simp_all add: ModuleType_create_def)
  show ?case
    by (cases "importLookup p") (simp_all add: loaded empty)
qed

lemma hasType_not_Alias:
  "hasTypeForDeclaration E declaration \<Longrightarrow> declType declaration \<noteq> Alias"
  by (auto simp: hasTypeForDeclaration_def)

section \<open>Properties\<close>

text \<open>
  In the statements below a budget of \<open>b\<close> that gives \<open>Some\<close> means that the function
  returns within \<open>b\<close> iterations of its loop; \<open>map_option fst\<close> drops the list of
  lookups from the result.
\<close>

subsection \<open>C1: alias cycles\<close>

text \<open>
  C1, as amended. If the chain of declarations selected from the input declaration \<open>d\<close>
  by symbol lookups alone (no submodule fallback taken) reaches after \<open>t\<close> steps a
  declaration \<open>c\<close> that it reaches again \<open>k \<ge> 1\<close> steps later, then
  \<^verbatim>\<open>resolveAliasDeclaration\<close> returns, performs no more than \<open>max (t + k) (k + 1)\<close> loop
  iterations (that is \<open>k + 1\<close> when \<open>d\<close> itself lies on the cycle), and returns the
  input declaration \<open>d\<close>, not absent.
\<close>

theorem resolveAlias_cycle_returns_input:
  assumes "0 < k"
    and "aliasChain E hp importLookup t d = Some c"
    and "aliasChain E hp importLookup (t + k) d = Some c"
  shows "map_option fst (resolveAliasDeclaration (max (t + k) (k + 1)) E hp importLookup d) =
         Some (Some d)"
proof (cases t)
  case 0
  with assms have c: "c = d" and loop: "aliasChain E hp importLookup k d = Some d" by auto
  from assms(1) obtain k' where k: "k = Suc k'" by (cases k) auto
  from loop k obtain c1 where c1: "aliasTarget E hp importLookup d = Some c1"
    by (auto split: option.splits)
  have one: "aliasChain E hp importLookup 1 d = Some c1" using c1 by simp
  have "aliasChain E hp importLookup (Suc k) d = Some c1"
    by (simp only: aliasChain_Suc_end loop option.case c1)
  then have "map_option fst (resolveAliasLoop (Suc k) E hp importLookup d d [] []) = Some (Some d)"
    using one k by (intro resolveAliasLoop_cycle [where j = "Suc k" and x = c1]) auto
  with 0 show ?thesis by (simp add: resolveAliasDeclaration_def)
next
  case (Suc t')
  then have tpos: "1 \<le> t" by simp
  have "map_option fst (resolveAliasLoop (t + k) E hp importLookup d d [] []) = Some (Some d)"
  proof (rule resolveAliasLoop_cycle [where j = "t + k" and x = c])
    show "aliasChain E hp importLookup (t + k) d = Some c" by fact
    show "1 \<le> t + k" using assms(1) by simp
    show "t + k \<le> t + k" by simp
    show "c \<in> set [] \<or>
        (\<exists>i. 1 \<le> i \<and> i < t + k \<and> aliasChain E hp importLookup i d = Some c)"
      using assms(1,2) tpos by (intro disjI2 exI [of _ t]) simp
  qed
  moreover have "max (t + k) (k + 1) = t + k" using tpos by simp
  ultimately show ?thesis by (simp only: resolveAliasDeclaration_def)
qed

text \<open>
  C1 as stated fails. In \<open>heapA\<close> a tail of two declarations leads from \<open>0\<close> into a
  cycle of length \<open>k = 1\<close>, and \<open>k + 1 = 2\<close> iterations are not enough: the function
  returns at its third iteration. In \<open>heapF\<close> the alias \<open>0\<close> reaches the cycle of \<open>1\<close>
  through its submodule fallback, and the declaration returned is the fallback \<open>1\<close>,
  not the input \<open>0\<close>: the recursive call starts a new resolution, whose input is the
  fallback.
\<close>

theorem resolveAlias_cycle_bound_counterexample:
  "aliasChain exEnv heapA lookupA 2 0 = Some 2 \<and>
   aliasChain exEnv heapA lookupA (2 + 1) 0 = Some 2 \<and>
   resolveAliasDeclaration (1 + 1) exEnv heapA lookupA 0 = None \<and>
   submoduleFallback (declAt heapF 0) = Some 1 \<and>
   aliasTarget exEnv heapF lookupF 1 = Some 1 \<and>
   map_option fst (resolveAliasDeclaration 3 exEnv heapF lookupF 0) = Some (Some 1)"
  by code_simp

text \<open>The amended statement at \<open>heapA\<close>, with \<open>t = 2\<close> and \<open>k = 1\<close>.\<close>

theorem resolveAlias_cycle_returns_input_witness:
  "(0::nat) < 1 \<and>
   aliasChain exEnv heapA lookupA 2 0 = Some 2 \<and>
   aliasChain exEnv heapA lookupA (2 + 1) 0 = Some 2 \<and>
   map_option fst (resolveAliasDeclaration (max (2 + 1) (1 + 1)) exEnv heapA lookupA 0) =
     Some (Some 0)"
proof -
  have k: "(0::nat) < 1" by simp
  have a: "aliasChain exEnv heapA lookupA 2 0 = Some 2" by code_simp
  have b: "aliasChain exEnv heapA lookupA (2 + 1) 0 = Some 2" by code_simp
  from resolveAlias_cycle_returns_input [OF k a b] k a b show ?thesis by blast
qed

text \<open>
  When the cycle passes through a submodule fallback, the visited list is empty again
  at every recursive call and the function never returns: no budget is enough.
\<close>

lemma resolveAlias_fallback_cycle_never_returns:
  "resolveAliasDeclaration n exEnv heapF lookupN 0 = None"
proof -
  have s0: "loopStep exEnv heapF lookupN 0 = Fallback 1" by code_simp
  have s1: "loopStep exEnv heapF lookupN (Suc 0) = Select 0" by code_simp
  have "(\<forall>decl visited lk. resolveAliasLoop n exEnv heapF lookupN decl 0 visited lk = None) \<and>
        (\<forall>lk. resolveAliasLoop n exEnv heapF lookupN (Suc 0) (Suc 0) [] lk = None)"
  proof (induction n)
    case 0
    show ?case by simp
  next
    case (Suc n)
    then show ?case by (simp add: resolveAliasLoop_Suc s0 s1)
  qed
  then show ?thesis by (simp add: resolveAliasDeclaration_def)
qed

subsection \<open>C2: what the cycle guard compares\<close>

text \<open>
  C2, as amended. The guard compares declaration objects (\<^verbatim>\<open>===\<close>), not their kind,
  path and start position. Let the first \<open>j\<close> declarations selected from \<open>d\<close> be
  pairwise different objects, and let \<open>x\<close> be the next one selected. Then the call
  returns \<open>d\<close> at that selection (the guard fires) exactly when \<open>x\<close> is the same
  object as one of the \<open>j\<close> declarations selected before.
\<close>

theorem guard_fires_on_same_object:
  assumes "aliasChain E hp importLookup (Suc j) d = Some x"
    and "\<forall>m y. 1 \<le> m \<and> m \<le> j \<and> aliasChain E hp importLookup m d = Some y \<longrightarrow>
           (\<forall>i. 1 \<le> i \<and> i < m \<longrightarrow> aliasChain E hp importLookup i d \<noteq> Some y)"
  shows "(map_option fst (resolveAliasDeclaration (Suc j) E hp importLookup d) = Some (Some d)) =
         (\<exists>i. 1 \<le> i \<and> i \<le> j \<and> aliasChain E hp importLookup i d = Some x)"
proof -
  have "map_option fst (resolveAliasLoop (Suc j) E hp importLookup d d [] []) =
      (if x \<in> set [] \<or> (\<exists>i. 1 \<le> i \<and> i \<le> j \<and> aliasChain E hp importLookup i d = Some x)
       then Some (Some d) else None)"
    using assms by (intro resolveAliasLoop_guard) auto
  then show ?thesis by (simp add: resolveAliasDeclaration_def)
qed

text \<open>
  C2 as stated fails. In \<open>heapB\<close> the declarations \<open>1\<close> and \<open>2\<close> are selected one after
  the other and \<^verbatim>\<open>areDeclarationsSame\<close> holds of them, yet the guard does not fire when
  \<open>2\<close> is selected: the resolution goes on and returns the variable \<open>3\<close>.
\<close>

theorem guard_identity_counterexample:
  "areDeclarationsSame (declAt heapB 1) (declAt heapB 2) \<and>
   aliasChain exEnv heapB lookupB 1 0 = Some 1 \<and>
   aliasChain exEnv heapB lookupB 2 0 = Some 2 \<and>
   map_option fst (resolveAliasDeclaration 4 exEnv heapB lookupB 0) = Some (Some 3)"
  by code_simp

text \<open>
  The amended statement at \<open>heapA\<close>, where the third selection is the object selected
  second and the guard fires, and at \<open>heapB\<close>, where the second selection is another
  object than the first and the guard does not fire.
\<close>

theorem guard_fires_on_same_object_witness:
  "aliasChain exEnv heapA lookupA (Suc 2) 0 = Some 2 \<and>
   aliasChain exEnv heapA lookupA 2 0 = Some 2 \<and>
   map_option fst (resolveAliasDeclaration (Suc 2) exEnv heapA lookupA 0) = Some (Some 0) \<and>
   areDeclarationsSame (declAt heapB 1) (declAt heapB 2) \<and>
   aliasChain exEnv heapB lookupB 1 0 = Some 1 \<and>
   aliasChain exEnv heapB lookupB (Suc 1) 0 = Some 2 \<and>
   map_option fst (resolveAliasDeclaration (Suc 1) exEnv heapB lookupB 0) \<noteq> Some (Some 0)"
proof -
  have a1: "aliasChain exEnv heapA lookupA 1 0 = Some 1" by code_simp
  have a2: "aliasChain exEnv heapA lookupA 2 0 = Some 2" by code_simp
  have a3: "aliasChain exEnv heapA lookupA (Suc 2) 0 = Some 2" by code_simp
  have distinctA: "\<forall>m y. 1 \<le> m \<and> m \<le> 2 \<and> aliasChain exEnv heapA lookupA m 0 = Some y \<longrightarrow>
      (\<forall>i. 1 \<le> i \<and> i < m \<longrightarrow> aliasChain exEnv heapA lookupA i 0 \<noteq> Some y)"
  proof (intro allI impI)
    fix m y i :: nat
    assume m: "1 \<le> m \<and> m \<le> 2 \<and> aliasChain exEnv heapA lookupA m 0 = Some y"
      and i: "1 \<le> i \<and> i < m"
    then have "m = 2" and "i = 1" by auto
    with m a1 a2 show "aliasChain exEnv heapA lookupA i 0 \<noteq> Some y" by simp
  qed
  have fires: "map_option fst (resolveAliasDeclaration (Suc 2) exEnv heapA lookupA 0) = Some (Some 0)"
    using guard_fires_on_same_object [OF a3 distinctA] a2 by auto
  have same: "areDeclarationsSame (declAt heapB 1) (declAt heapB 2)" by code_simp
  have b1: "aliasChain exEnv heapB lookupB 1 0 = Some 1" by code_simp
  have b2: "aliasChain exEnv heapB lookupB (Suc 1) 0 = Some 2" by code_simp
  have distinctB: "\<forall>m y. 1 \<le> m \<and> m \<le> 1 \<and> aliasChain exEnv heapB lookupB m 0 = Some y \<longrightarrow>
      (\<forall>i. 1 \<le> i \<and> i < m \<longrightarrow> aliasChain exEnv heapB lookupB i 0 \<noteq> Some y)"
    by auto
  have quiet: "map_option fst (resolveAliasDeclaration (Suc 1) exEnv heapB lookupB 0) \<noteq> Some (Some 0)"
    using guard_fires_on_same_object [OF b2 distinctB] b1 by auto
  from a3 a2 fires same b1 b2 quiet show ?thesis by blast
qed

subsection \<open>C3: typed declarations are preferred\<close>

text \<open>
  C3. Let \<open>s\<close> be the symbol an alias names during alias resolution. If \<open>s\<close> has a typed
  declaration, the loop goes on with the last typed declaration, which is one of the
  typed declarations; if it has none but has a declaration, the loop goes on with the
  last of all its declarations; if it has no declaration, the function returns absent.
  In a member access, the callback run on a subtype whose member has the symbol \<open>s\<close>
  appends the typed declarations of \<open>s\<close> if there is one and all its declarations
  otherwise, and so the resolution of a member name on a base that is not a union
  returns exactly that list.
\<close>

theorem typed_declarations_preferred:
  "(aliasSymbol hp importLookup cur = Some s \<and> getTypedDeclarations E hp s \<noteq> [] \<longrightarrow>
      last (getTypedDeclarations E hp s) \<in> set (getTypedDeclarations E hp s) \<and>
      resolveAliasLoop (Suc n) E hp importLookup decl cur visited lk =
        (if last (getTypedDeclarations E hp s) \<in> set visited
         then Some (Some decl, lk @ [path (declAt hp cur)])
         else resolveAliasLoop n E hp importLookup decl (last (getTypedDeclarations E hp s))
                (visited @ [last (getTypedDeclarations E hp s)]) (lk @ [path (declAt hp cur)]))) \<and>
   (aliasSymbol hp importLookup cur = Some s \<and> getTypedDeclarations E hp s = [] \<and>
    getDeclarations s \<noteq> [] \<longrightarrow>
      resolveAliasLoop (Suc n) E hp importLookup decl cur visited lk =
        (if last (getDeclarations s) \<in> set visited
         then Some (Some decl, lk @ [path (declAt hp cur)])
         else resolveAliasLoop n E hp importLookup decl (last (getDeclarations s))
                (visited @ [last (getDeclarations s)]) (lk @ [path (declAt hp cur)]))) \<and>
   (aliasSymbol hp importLookup cur = Some s \<and> getTypedDeclarations E hp s = [] \<and>
    getDeclarations s = [] \<longrightarrow>
      resolveAliasLoop (Suc n) E hp importLookup decl cur visited lk =
        Some (None, lk @ [path (declAt hp cur)])) \<and>
   (memberSymbol E importLookup nm subtype = Some s \<longrightarrow>
      memberAccessCallback E hp importLookup nm subtype acc =
        acc @ (if getTypedDeclarations E hp s \<noteq> [] then getTypedDeclarations E hp s
               else getDeclarations s)) \<and>
   (parent (nodeAt E nd) = Some p \<and> nodeType (nodeAt E p) = MemberAccessNode \<and>
    memberName (nodeAt E p) = Some nd \<and> leftExpression (nodeAt E p) = Some l \<and>
    getExpressionType E l = Some t \<and> (\<forall>ts. t \<noteq> UnionT ts) \<and>
    memberSymbol E importLookup (nameToken_value (nodeAt E nd)) t = Some s \<longrightarrow>
      getDeclarationsForNameNode E hp importLookup nd =
        (Some (if getTypedDeclarations E hp s \<noteq> [] then getTypedDeclarations E hp s
               else getDeclarations s), hp))"
proof (intro conjI impI)
  assume a: "aliasSymbol hp importLookup cur = Some s \<and> getTypedDeclarations E hp s \<noteq> []"
  then show "last (getTypedDeclarations E hp s) \<in> set (getTypedDeclarations E hp s)" by simp
  from a show "resolveAliasLoop (Suc n) E hp importLookup decl cur visited lk =
        (if last (getTypedDeclarations E hp s) \<in> set visited
         then Some (Some decl, lk @ [path (declAt hp cur)])
         else resolveAliasLoop n E hp importLookup decl (last (getTypedDeclarations E hp s))
                (visited @ [last (getTypedDeclarations E hp s)]) (lk @ [path (declAt hp cur)]))"
    by (simp add: resolveAliasLoop_symbol chosenDeclarations_def)
next
  assume "aliasSymbol hp importLookup cur = Some s \<and> getTypedDeclarations E hp s = [] \<and>
    getDeclarations s \<noteq> []"
  then show "resolveAliasLoop (Suc n) E hp importLookup decl cur visited lk =
        (if last (getDeclarations s) \<in> set visited
         then Some (Some decl, lk @ [path (declAt hp cur)])
         else resolveAliasLoop n E hp importLookup decl (last (getDeclarations s))
                (visited @ [last (getDeclarations s)]) (lk @ [path (declAt hp cur)]))"
    by (simp add: resolveAliasLoop_symbol chosenDeclarations_def)
next
  assume "aliasSymbol hp importLookup cur = Some s \<and> getTypedDeclarations E hp s = [] \<and>
    getDeclarations s = []"
  then show "resolveAliasLoop (Suc n) E hp importLookup decl cur visited lk =
        Some (None, lk @ [path (declAt hp cur)])"
    by (simp add: resolveAliasLoop_symbol chosenDeclarations_def)
next
  assume "memberSymbol E importLookup nm subtype = Some s"
  then show "memberAccessCallback E hp importLookup nm subtype acc =
        acc @ (if getTypedDeclarations E hp s \<noteq> [] then getTypedDeclarations E hp s
               else getDeclarations s)"
    by (simp add: memberAccessCallback_def Let_def)
next
  assume a: "parent (nodeAt E nd) = Some p \<and> nodeType (nodeAt E p) = MemberAccessNode \<and>
    memberName (nodeAt E p) = Some nd \<and> leftExpression (nodeAt E p) = Some l \<and>
    getExpressionType E l = Some t \<and> (\<forall>ts. t \<noteq> UnionT ts) \<and>
    memberSymbol E importLookup (nameToken_value (nodeAt E nd)) t = Some s"
  then have "doForSubtypes t (memberAccessCallback E hp importLookup (nameToken_value (nodeAt E nd))) []
      = memberAccessCallback E hp importLookup (nameToken_value (nodeAt E nd)) t []"
    by (cases t) (simp_all add: doForSubtypes_def)
  with a show "getDeclarationsForNameNode E hp importLookup nd =
        (Some (if getTypedDeclarations E hp s \<noteq> [] then getTypedDeclarations E hp s
               else getDeclarations s), hp)"
    by (simp add: getDeclarationsForNameNode_def getExpressionTypeOf_def memberAccessCallback_def
        Let_def)
qed

text \<open>
  C3 at \<open>heapT\<close>: the symbol \<open>g\<close> gives its one typed declaration \<open>1\<close> although the
  untyped \<open>2\<close> comes last, \<open>u\<close> gives the last of its untyped declarations, \<open>e\<close> gives
  absent; the member \<open>attr\<close> of an instance of \<open>B\<close> gives the typed declaration \<open>1\<close>.
\<close>

theorem typed_declarations_preferred_witness:
  "aliasSymbol heapT lookupT 0 = Some (Symbol 0 [1, 2] None) \<and>
   getTypedDeclarations exEnv heapT (Symbol 0 [1, 2] None) = [1] \<and>
   resolveAliasLoop (Suc 1) exEnv heapT lookupT 0 0 [] [] = Some (Some 1, [''m'']) \<and>
   aliasSymbol heapT lookupT 3 = Some (Symbol 0 [2, 4] None) \<and>
   getTypedDeclarations exEnv heapT (Symbol 0 [2, 4] None) = [] \<and>
   resolveAliasLoop (Suc 1) exEnv heapT lookupT 3 3 [] [] = Some (Some 4, [''m'']) \<and>
   aliasSymbol heapT lookupT 5 = Some (Symbol 0 [] None) \<and>
   resolveAliasLoop (Suc 1) exEnv heapT lookupT 5 5 [] [] = Some (None, [''m'']) \<and>
   memberSymbol exEnv lookupT ''attr'' (ObjectT clsB) = Some (Symbol 0 [1, 2] None) \<and>
   memberAccessCallback exEnv heapT lookupT ''attr'' (ObjectT clsB) [7] = [7, 1] \<and>
   getDeclarationsForNameNode exEnv heapT lookupT 23 = (Some [1], heapT)"
proof -
  note T = typed_declarations_preferred [where E = exEnv and hp = heapT and importLookup = lookupT
      and n = 1 and visited = "[]" and lk = "[]"]
  have pth: "path (declAt heapT 0) = ''m''" "path (declAt heapT 3) = ''m''"
    "path (declAt heapT 5) = ''m''" by code_simp+
  have s0: "aliasSymbol heapT lookupT 0 = Some (Symbol 0 [1, 2] None)" by code_simp
  have t0: "getTypedDeclarations exEnv heapT (Symbol 0 [1, 2] None) = [1]" by code_simp
  have r0: "resolveAliasLoop 1 exEnv heapT lookupT 0 1 [1] [''m''] = Some (Some 1, [''m''])"
    by code_simp
  have c0: "resolveAliasLoop (Suc 1) exEnv heapT lookupT 0 0 [] [] = Some (Some 1, [''m''])"
    using T [where cur = 0 and decl = 0 and s = "Symbol 0 [1, 2] None", THEN conjunct1] s0 t0 r0 pth
    by simp
  have s3: "aliasSymbol heapT lookupT 3 = Some (Symbol 0 [2, 4] None)" by code_simp
  have t3: "getTypedDeclarations exEnv heapT (Symbol 0 [2, 4] None) = []" by code_simp
  have r3: "resolveAliasLoop 1 exEnv heapT lookupT 3 4 [4] [''m''] = Some (Some 4, [''m''])"
    by code_simp
  have c3: "resolveAliasLoop (Suc 1) exEnv heapT lookupT 3 3 [] [] = Some (Some 4, [''m''])"
    using T [where cur = 3 and decl = 3 and s = "Symbol 0 [2, 4] None",
        THEN conjunct2, THEN conjunct1] s3 t3 r3 pth
    by (simp add: getDeclarations_def)
  have s5: "aliasSymbol heapT lookupT 5 = Some (Symbol 0 [] None)" by code_simp
  have t5: "getTypedDeclarations exEnv heapT (Symbol 0 [] None) = []" by code_simp
  have c5: "resolveAliasLoop (Suc 1) exEnv heapT lookupT 5 5 [] [] = Some (None, [''m''])"
    using T [where cur = 5 and decl = 5 and s = "Symbol 0 [] None",
        THEN conjunct2, THEN conjunct2, THEN conjunct1] s5 t5 pth
    by (simp add: getDeclarations_def)
  have ms: "memberSymbol exEnv lookupT ''attr'' (ObjectT clsB) = Some (Symbol 0 [1, 2] None)"
    by code_simp
  have cb: "memberAccessCallback exEnv heapT lookupT ''attr'' (ObjectT clsB) [7] = [7, 1]"
    using T [where nm = "''attr''" and subtype = "ObjectT clsB" and s = "Symbol 0 [1, 2] None"
        and acc = "[7]", THEN conjunct2, THEN conjunct2, THEN conjunct2, THEN conjunct1] ms t0
    by simp
  have n1: "parent (nodeAt exEnv 23) = Some 24" by code_simp
  have n2: "nodeType (nodeAt exEnv 24) = MemberAccessNode" by code_simp
  have n3: "memberName (nodeAt exEnv 24) = Some 23" by code_simp
  have n4: "leftExpression (nodeAt exEnv 24) = Some 25" by code_simp
  have n5: "getExpressionType exEnv 25 = Some (ObjectT clsB)" by code_simp
  have n6: "nameToken_value (nodeAt exEnv 23) = ''attr''" by code_simp
  have gd: "getDeclarationsForNameNode exEnv heapT lookupT 23 = (Some [1], heapT)"
    using T [where nd = 23 and p = 24 and l = 25 and t = "ObjectT clsB"
        and s = "Symbol 0 [1, 2] None",
        THEN conjunct2, THEN conjunct2, THEN conjunct2, THEN conjunct2] n1 n2 n3 n4 n5 n6 ms t0
    by simp
  from s0 t0 c0 s3 t3 c3 s5 c5 ms cb gd show ?thesis by blast
qed

subsection \<open>C4: the last declaration is selected\<close>

text \<open>
  C4. When the declaration list chosen for the symbol an alias names is not empty, with
  last element \<open>d3\<close>, the loop sets \<open>curDeclaration\<close> to \<open>d3\<close>: unless the guard fires on
  \<open>d3\<close>, the next iteration runs on \<open>d3\<close>, and \<open>d3\<close> is what is added to the visited
  list. From the input declaration the guard cannot fire at the first selection.
\<close>

theorem last_declaration_selected:
  assumes "aliasSymbol hp importLookup cur = Some s"
    and "chosenDeclarations E hp s = ds @ [d3]"
  shows "resolveAliasLoop (Suc n) E hp importLookup decl cur visited lk =
           (if d3 \<in> set visited then Some (Some decl, lk @ [path (declAt hp cur)])
            else resolveAliasLoop n E hp importLookup decl d3 (visited @ [d3])
                   (lk @ [path (declAt hp cur)])) \<and>
         resolveAliasDeclaration (Suc n) E hp importLookup cur =
           resolveAliasLoop n E hp importLookup cur d3 [d3] [path (declAt hp cur)] \<and>
         (hasTypeForDeclaration E (declAt hp d3) \<longrightarrow>
            resolveAliasDeclaration (Suc (Suc n)) E hp importLookup cur =
              Some (Some d3, [path (declAt hp cur)]))"
proof (intro conjI impI)
  show step: "resolveAliasLoop (Suc n) E hp importLookup decl cur visited lk =
           (if d3 \<in> set visited then Some (Some decl, lk @ [path (declAt hp cur)])
            else resolveAliasLoop n E hp importLookup decl d3 (visited @ [d3])
                   (lk @ [path (declAt hp cur)]))"
    for n decl visited lk
    using assms by (simp add: resolveAliasLoop_symbol)
  show first: "resolveAliasDeclaration (Suc n) E hp importLookup cur =
           resolveAliasLoop n E hp importLookup cur d3 [d3] [path (declAt hp cur)]"
    for n
    by (simp add: resolveAliasDeclaration_def step)
  assume "hasTypeForDeclaration E (declAt hp d3)"
  then have "declType (declAt hp d3) \<noteq> Alias" by (rule hasType_not_Alias)
  then show "resolveAliasDeclaration (Suc (Suc n)) E hp importLookup cur =
      Some (Some d3, [path (declAt hp cur)])"
    by (simp add: first resolveAliasLoop_terminal)
qed

text \<open>C4 at \<open>heapT\<close>: of the three class declarations \<open>7\<close>, \<open>8\<close>, \<open>9\<close> the last is returned.\<close>

theorem last_declaration_selected_witness:
  "aliasSymbol heapT lookupT 6 = Some (Symbol 0 [7, 8, 9] None) \<and>
   chosenDeclarations exEnv heapT (Symbol 0 [7, 8, 9] None) = [7, 8] @ [9] \<and>
   hasTypeForDeclaration exEnv (declAt heapT 9) \<and>
   resolveAliasDeclaration (Suc (Suc 0)) exEnv heapT lookupT 6 = Some (Some 9, [''m''])"
proof -
  have s: "aliasSymbol heapT lookupT 6 = Some (Symbol 0 [7, 8, 9] None)" by code_simp
  have c: "chosenDeclarations exEnv heapT (Symbol 0 [7, 8, 9] None) = [7, 8] @ [9]" by code_simp
  have p: "path (declAt heapT 6) = ''m''" by code_simp
  have h: "hasTypeForDeclaration exEnv (declAt heapT 9)" by code_simp
  have "resolveAliasDeclaration (Suc (Suc 0)) exEnv heapT lookupT 6 = Some (Some 9, [''m''])"
    using last_declaration_selected [OF s c, where n = 0, THEN conjunct2, THEN conjunct2] h p
    by simp
  with s c h show ?thesis by blast
qed

subsection \<open>C5: module materialization\<close>

text \<open>
  C5. If alias resolution returns an alias \<open>r\<close> with no symbol name (it denotes a
  module), \<open>r\<close> has a path, and \<open>importLookup\<close> answers \<open>res\<close> for that path, then
  \<^verbatim>\<open>getInferredTypeOfDeclaration\<close> returns a module type whose fields are the symbol
  table of \<open>res\<close>, whose docstring is that of \<open>res\<close>, and whose loader fields, kept
  apart from the fields, bind each implicit-import name of \<open>r\<close> to a symbol that wraps
  the type its nested loader actions stand for, built recursively as the spec says:
  from the lookup of the nested path when there is one, with no field when there is
  none, and with the nested implicit imports registered in turn. The names of the
  implicit imports are distinct at every level, as the keys of a \<^verbatim>\<open>Map\<close> are.
\<close>

theorem module_alias_materialized:
  assumes "map_option fst (resolveAliasDeclaration n E hp importLookup decl) = Some (Some r)"
    and "declType (declAt hp r) = Alias"
    and "\<not> truthy (symbolName (declAt hp r))"
    and "path (declAt hp r) \<noteq> []"
    and "importLookup (path (declAt hp r)) = Some res"
    and "distinctImportNames (loaderActionsOf (declAt hp r))"
  shows "getInferredTypeOfDeclaration n E hp importLookup decl =
         Some (Inr (Some (ModuleT (ModuleType (symbolTable res)
           (map (\<lambda>entry. (fst entry,
                   createWithType SymbolFlags_None (moduleOfActions importLookup (snd entry))))
              (implicitImports (declAt hp r)))
           (lookupDocString res)))))"
proof -
  from assms(1) obtain lks where
    res: "resolveAliasDeclaration n E hp importLookup decl = Some (Some r, lks)"
    by (cases "resolveAliasDeclaration n E hp importLookup decl") auto
  have "getInferredTypeOfDeclaration n E hp importLookup decl =
      Some (Inr (Some (applyLoaderActionsToModuleType importLookup ModuleType_create
                         (loaderActionsOf (declAt hp r)))))"
    using assms(2,3) by (simp add: getInferredTypeOfDeclaration_def res Let_def)
  also have "applyLoaderActionsToModuleType importLookup ModuleType_create
      (loaderActionsOf (declAt hp r)) = moduleOfActions importLookup (loaderActionsOf (declAt hp r))"
    using assms(6) by (rule applyLoaderActions_moduleOfActions)
  also have "moduleOfActions importLookup (loaderActionsOf (declAt hp r)) =
      ModuleT (ModuleType (symbolTable res)
        (map (\<lambda>entry. (fst entry,
                createWithType SymbolFlags_None (moduleOfActions importLookup (snd entry))))
           (implicitImports (declAt hp r)))
        (lookupDocString res))"
    using assms(4,5) by (simp add: loaderActionsOf_def)
  finally show ?thesis .
qed

text \<open>
  C5 at \<open>heapP\<close>: from the alias \<open>2\<close>, which resolves to the package alias \<open>0\<close> with path
  \<open>pkg/__init__\<close> and the implicit import \<open>sub\<close> of path \<open>pkg/sub\<close>; and from the
  package alias \<open>3\<close>, whose implicit import \<open>ns\<close> has no path: \<open>ns\<close> is bound to a
  module with no field, whose loader field \<open>deep\<close> holds the module of \<open>pkg/sub\<close>.
\<close>

theorem module_alias_materialized_witness:
  "map_option fst (resolveAliasDeclaration 2 exEnv heapP lookupP 2) = Some (Some 0) \<and>
   declType (declAt heapP 0) = Alias \<and>
   \<not> truthy (symbolName (declAt heapP 0)) \<and>
   path (declAt heapP 0) = ''pkg/__init__'' \<and>
   implicitImports (declAt heapP 0) = [(''sub'', ModuleLoaderActions ''pkg/sub'' [])] \<and>
   getInferredTypeOfDeclaration 2 exEnv heapP lookupP 2 =
     Some (Inr (Some (ModuleT (ModuleType [(''x'', Symbol 0 [1] None)]
       [(''sub'', Symbol 0 []
           (Some (ModuleT (ModuleType [(''y'', Symbol 0 [1] None)] [] (Some ''submodule'')))))]
       (Some ''package''))))) \<and>
   implicitImports (declAt heapP 3) =
     [(''ns'', ModuleLoaderActions [] [(''deep'', ModuleLoaderActions ''pkg/sub'' [])])] \<and>
   getInferredTypeOfDeclaration 1 exEnv heapP lookupP 3 =
     Some (Inr (Some (ModuleT (ModuleType [(''x'', Symbol 0 [1] None)]
       [(''ns'', Symbol 0 []
           (Some (ModuleT (ModuleType []
              [(''deep'', Symbol 0 []
                  (Some (ModuleT (ModuleType [(''y'', Symbol 0 [1] None)] []
                                    (Some ''submodule'')))))]
              None))))]
       (Some ''package'')))))"
proof -
  have r: "map_option fst (resolveAliasDeclaration 2 exEnv heapP lookupP 2) = Some (Some 0)"
    by code_simp
  have k: "declType (declAt heapP 0) = Alias" by code_simp
  have sn: "\<not> truthy (symbolName (declAt heapP 0))" by code_simp
  have p: "path (declAt heapP 0) = ''pkg/__init__''" by code_simp
  have pn: "path (declAt heapP 0) \<noteq> []" by code_simp
  have l: "importLookup' = lookupP \<Longrightarrow> importLookup' (path (declAt heapP 0)) =
      Some \<lparr> symbolTable = [(''x'', Symbol 0 [1] None)], lookupDocString = Some ''package'' \<rparr>"
    for importLookup' by (simp add: p lookupP_def)
  have i: "implicitImports (declAt heapP 0) = [(''sub'', ModuleLoaderActions ''pkg/sub'' [])]"
    by code_simp
  have d: "distinctImportNames (loaderActionsOf (declAt heapP 0))" by code_simp
  have sub: "moduleOfActions lookupP (ModuleLoaderActions ''pkg/sub'' []) =
      ModuleT (ModuleType [(''y'', Symbol 0 [1] None)] [] (Some ''submodule''))"
    by code_simp
  have f: "createWithType SymbolFlags_None t = Symbol 0 [] (Some t)" for t
    by (simp add: createWithType_def SymbolFlags_None_def)
  have first: "getInferredTypeOfDeclaration 2 exEnv heapP lookupP 2 =
     Some (Inr (Some (ModuleT (ModuleType [(''x'', Symbol 0 [1] None)]
       [(''sub'', Symbol 0 []
           (Some (ModuleT (ModuleType [(''y'', Symbol 0 [1] None)] [] (Some ''submodule'')))))]
       (Some ''package'')))))"
    using module_alias_materialized [OF r k sn pn l [OF refl] d] i sub f by simp
  have r3: "map_option fst (resolveAliasDeclaration 1 exEnv heapP lookupP 3) = Some (Some 3)"
    by code_simp
  have k3: "declType (declAt heapP 3) = Alias" by code_simp
  have sn3: "\<not> truthy (symbolName (declAt heapP 3))" by code_simp
  have p3: "path (declAt heapP 3) = ''pkg/__init__''" by code_simp
  have pn3: "path (declAt heapP 3) \<noteq> []" by code_simp
  have l3: "importLookup' = lookupP \<Longrightarrow> importLookup' (path (declAt heapP 3)) =
      Some \<lparr> symbolTable = [(''x'', Symbol 0 [1] None)], lookupDocString = Some ''package'' \<rparr>"
    for importLookup' by (simp add: p3 lookupP_def)
  have i3: "implicitImports (declAt heapP 3) =
     [(''ns'', ModuleLoaderActions [] [(''deep'', ModuleLoaderActions ''pkg/sub'' [])])]"
    by code_simp
  have d3: "distinctImportNames (loaderActionsOf (declAt heapP 3))" by code_simp
  have ns: "moduleOfActions lookupP
      (ModuleLoaderActions [] [(''deep'', ModuleLoaderActions ''pkg/sub'' [])]) =
      ModuleT (ModuleType []
        [(''deep'', Symbol 0 []
            (Some (ModuleT (ModuleType [(''y'', Symbol 0 [1] None)] [] (Some ''submodule'')))))]
        None)"
    by code_simp
  have second: "getInferredTypeOfDeclaration 1 exEnv heapP lookupP 3 =
     Some (Inr (Some (ModuleT (ModuleType [(''x'', Symbol 0 [1] None)]
       [(''ns'', Symbol 0 []
           (Some (ModuleT (ModuleType []
              [(''deep'', Symbol 0 []
                  (Some (ModuleT (ModuleType [(''y'', Symbol 0 [1] None)] []
                                    (Some ''submodule'')))))]
              None))))]
       (Some ''package'')))))"
    using module_alias_materialized [OF r3 k3 sn3 pn3 l3 [OF refl] d3] i3 ns f by simp
  from r k sn p i first i3 second show ?thesis by blast
qed

subsection \<open>C6: a failed lookup\<close>

text \<open>
  C6. When the loader actions have a path and \<open>importLookup\<close> fails on it, the result
  is \<open>Unknown\<close>, whatever the implicit imports are: no field, docstring or loader field
  is there. When the lookup succeeds, the fields and the docstring of the module type
  are those of the lookup result.
\<close>

theorem failed_lookup_gives_unknown:
  "(p \<noteq> [] \<and> importLookup p = None \<longrightarrow>
      applyLoaderActionsToModuleType importLookup moduleType (ModuleLoaderActions p imps) = Unknown) \<and>
   (p \<noteq> [] \<and> importLookup p = Some res \<longrightarrow>
      (\<exists>lf. applyLoaderActionsToModuleType importLookup moduleType (ModuleLoaderActions p imps) =
         ModuleT (ModuleType (symbolTable res) lf (lookupDocString res))))"
  by simp

text \<open>
  C6 with \<open>lookupP\<close>: it has no module \<open>pkg/gone\<close>, whose subtree is \<open>Unknown\<close> although
  its implicit import \<open>deep\<close> could be looked up, and in the package that imports it
  the loader field \<open>gone\<close> wraps \<open>Unknown\<close>; it has the module \<open>pkg/sub\<close>.
\<close>

theorem failed_lookup_gives_unknown_witness:
  "lookupP ''pkg/gone'' = None \<and>
   applyLoaderActionsToModuleType lookupP ModuleType_create
     (ModuleLoaderActions ''pkg/gone'' [(''deep'', ModuleLoaderActions ''pkg/sub'' [])]) = Unknown \<and>
   applyLoaderActionsToModuleType lookupP ModuleType_create
     (ModuleLoaderActions ''pkg/__init__''
        [(''gone'', ModuleLoaderActions ''pkg/gone'' [(''deep'', ModuleLoaderActions ''pkg/sub'' [])])]) =
     ModuleT (ModuleType [(''x'', Symbol 0 [1] None)] [(''gone'', Symbol 0 [] (Some Unknown))]
                (Some ''package'')) \<and>
   (\<exists>lf. applyLoaderActionsToModuleType lookupP ModuleType_create
            (ModuleLoaderActions ''pkg/sub'' []) =
          ModuleT (ModuleType [(''y'', Symbol 0 [1] None)] lf (Some ''submodule'')))"
proof -
  have g: "lookupP ''pkg/gone'' = None" by code_simp
  have s: "lookupP ''pkg/sub'' =
      Some \<lparr> symbolTable = [(''y'', Symbol 0 [1] None)], lookupDocString = Some ''submodule'' \<rparr>"
    by (simp add: lookupP_def)
  have ne: "''pkg/gone'' \<noteq> []" "''pkg/sub'' \<noteq> []" by simp_all
  have a: "applyLoaderActionsToModuleType lookupP ModuleType_create
     (ModuleLoaderActions ''pkg/gone'' [(''deep'', ModuleLoaderActions ''pkg/sub'' [])]) = Unknown"
    using failed_lookup_gives_unknown [where importLookup = lookupP and p = "''pkg/gone''"
        and moduleType = ModuleType_create
        and imps = "[(''deep'', ModuleLoaderActions ''pkg/sub'' [])]", THEN conjunct1] g ne
    by blast
  have c: "applyLoaderActionsToModuleType lookupP ModuleType_create
     (ModuleLoaderActions ''pkg/__init__''
        [(''gone'', ModuleLoaderActions ''pkg/gone'' [(''deep'', ModuleLoaderActions ''pkg/sub'' [])])]) =
     ModuleT (ModuleType [(''x'', Symbol 0 [1] None)] [(''gone'', Symbol 0 [] (Some Unknown))]
                (Some ''package''))"
    by code_simp
  have b: "\<exists>lf. applyLoaderActionsToModuleType lookupP ModuleType_create
            (ModuleLoaderActions ''pkg/sub'' []) =
          ModuleT (ModuleType [(''y'', Symbol 0 [1] None)] lf (Some ''submodule''))"
    using failed_lookup_gives_unknown [where importLookup = lookupP and p = "''pkg/sub''"
        and moduleType = ModuleType_create and imps = "[]"
        and res = "\<lparr> symbolTable = [(''y'', Symbol 0 [1] None)],
                        lookupDocString = Some ''submodule'' \<rparr>", THEN conjunct2] s ne
    by simp
  from g a c b show ?thesis by blast
qed

subsection \<open>C7: the enum transform\<close>

text \<open>
  C7. Take a variable declaration whose annotation node (after unwrapping a string
  literal) is \<open>a\<close>, with the type \<open>annotated\<close> attached, and whose enclosing class, as
  \<^verbatim>\<open>getEnclosingClass\<close> finds it, has the class type \<open>c\<close> attached. If \<open>c\<close> is an
  enumeration class and not one of the built-in classes \<open>Enum\<close>, \<open>IntEnum\<close>, \<open>Flag\<close>,
  \<open>IntFlag\<close>, the type of the declaration is the instance type of \<open>c\<close>. If \<open>c\<close> is not
  an enumeration class, or is one of those four built-in classes, it is the annotated
  type, converted from class to instance.
\<close>

theorem enum_member_transform:
  assumes "declType declaration = Variable"
    and "unwrapStringList E (typeAnnotationNode declaration) = Some a"
    and "getExpressionType E a = Some annotated"
    and "getEnclosingClass E a True = Some classNode"
    and "getExpressionType E classNode = Some (ClassT c)"
  shows "(isEnumClass E c \<and>
          \<not> (isBuiltIn c \<and> details_name c \<in> {''Enum'', ''IntEnum'', ''Flag'', ''IntFlag''}) \<longrightarrow>
            getTypeForDeclaration E declaration = Inr (Some (ObjectT c))) \<and>
         (\<not> isEnumClass E c \<longrightarrow>
            getTypeForDeclaration E declaration = Inr (Some (convertClassToObject annotated))) \<and>
         (isBuiltIn c \<and> details_name c \<in> {''Enum'', ''IntEnum'', ''Flag'', ''IntFlag''} \<longrightarrow>
            getTypeForDeclaration E declaration = Inr (Some (convertClassToObject annotated)))"
  using assms
  by (auto simp: getTypeForDeclaration_def transformTypeForPossibleEnumClass_def
      getEnclosingEnumClass_def convertClassToObject_def)

text \<open>
  C7 in the example parse tree: an \<open>int\<close> annotation in the enumeration \<open>Color\<close>, in the
  class \<open>Plain\<close> and in the built-in \<open>IntEnum\<close>.
\<close>

theorem enum_member_transform_witness:
  "getTypeForDeclaration exEnv (mkDecl Variable (Some 56) 1) = Inr (Some (ObjectT clsColor)) \<and>
   getTypeForDeclaration exEnv (mkDecl Variable (Some 52) 1) = Inr (Some (ObjectT clsInt)) \<and>
   getTypeForDeclaration exEnv (mkDecl Variable (Some 54) 1) = Inr (Some (ObjectT clsInt))"
proof -
  have v: "declType (mkDecl Variable ann 1) = Variable" for ann by (simp add: mkDecl_def)
  have u1: "unwrapStringList exEnv (typeAnnotationNode (mkDecl Variable (Some 56) 1)) = Some 50"
    by code_simp
  have u2: "unwrapStringList exEnv (typeAnnotationNode (mkDecl Variable (Some 52) 1)) = Some 52"
    by code_simp
  have u3: "unwrapStringList exEnv (typeAnnotationNode (mkDecl Variable (Some 54) 1)) = Some 54"
    by code_simp
  have t1: "getExpressionType exEnv 50 = Some (ClassT clsInt)" by code_simp
  have t2: "getExpressionType exEnv 52 = Some (ClassT clsInt)" by code_simp
  have t3: "getExpressionType exEnv 54 = Some (ClassT clsInt)" by code_simp
  have e1: "getEnclosingClass exEnv 50 True = Some 51" by code_simp
  have e2: "getEnclosingClass exEnv 52 True = Some 53" by code_simp
  have e3: "getEnclosingClass exEnv 54 True = Some 55" by code_simp
  have c1: "getExpressionType exEnv 51 = Some (ClassT clsColor)" by code_simp
  have c2: "getExpressionType exEnv 53 = Some (ClassT clsPlain)" by code_simp
  have c3: "getExpressionType exEnv 55 = Some (ClassT clsIntEnum)" by code_simp
  have q1: "isEnumClass exEnv clsColor \<and>
      \<not> (isBuiltIn clsColor \<and> details_name clsColor \<in> {''Enum'', ''IntEnum'', ''Flag'', ''IntFlag''})"
    by (simp add: exEnv_def clsColor_def)
  have q2: "\<not> isEnumClass exEnv clsPlain" by (simp add: exEnv_def clsPlain_def)
  have q3: "isBuiltIn clsIntEnum \<and>
      details_name clsIntEnum \<in> {''Enum'', ''IntEnum'', ''Flag'', ''IntFlag''}"
    by (simp add: clsIntEnum_def)
  have conv: "convertClassToObject (ClassT clsInt) = ObjectT clsInt"
    by (simp add: convertClassToObject_def)
  have r1: "getTypeForDeclaration exEnv (mkDecl Variable (Some 56) 1) = Inr (Some (ObjectT clsColor))"
    using enum_member_transform [OF v u1 t1 e1 c1, THEN conjunct1] q1 by blast
  have r2: "getTypeForDeclaration exEnv (mkDecl Variable (Some 52) 1) = Inr (Some (ObjectT clsInt))"
    using enum_member_transform [OF v u2 t2 e2 c2, THEN conjunct2, THEN conjunct1] q2
    unfolding conv by blast
  have r3: "getTypeForDeclaration exEnv (mkDecl Variable (Some 54) 1) = Inr (Some (ObjectT clsInt))"
    using enum_member_transform [OF v u3 t3 e3 c3, THEN conjunct2, THEN conjunct2] q3
    unfolding conv by blast
  from r1 r2 r3 show ?thesis by blast
qed

subsection \<open>C8: member access on a union\<close>

text \<open>
  C8. For a name node that is the member name of a member-access expression whose base
  has a union type attached, the declarations returned are the concatenation, in the
  order of the union's variants, of what each variant contributes. What a variant
  contributes is stated apart from the code: the member's symbol is the one found in a
  class or an instance by the lookup restricted to declared types, or else by the
  unrestricted lookup, and in a module the field of that name; the contribution is the
  typed declarations of that symbol if any exist, else all its declarations, and
  nothing for a variant without the member. The store is unchanged.
\<close>

theorem union_member_access_concatenates:
  assumes "parent (nodeAt E nd) = Some p"
    and "nodeType (nodeAt E p) = MemberAccessNode"
    and "memberName (nodeAt E p) = Some nd"
    and "leftExpression (nodeAt E p) = Some l"
    and "getExpressionType E l = Some (UnionT variants)"
  shows "getDeclarationsForNameNode E hp importLookup nd =
         (Some (concat (map (variantDeclarations E hp importLookup (nameToken_value (nodeAt E nd)))
                          variants)), hp)"
  using assms
  by (simp add: getDeclarationsForNameNode_def getExpressionTypeOf_def doForSubtypes_def
      fold_memberAccessCallback Let_def)

text \<open>
  C8 in the example parse tree: the class \<open>A\<close> contributes the untyped \<open>2\<close> and \<open>4\<close> of
  the symbol its unrestricted lookup finds, an instance of \<open>B\<close> the typed \<open>1\<close> of the
  symbol its restricted lookup finds (not the \<open>4\<close> of the unrestricted one), the module
  the \<open>4\<close> of its field, and the class \<open>C\<close> nothing.
\<close>

theorem union_member_access_concatenates_witness:
  "getExpressionType exEnv 22 =
     Some (UnionT [ClassT clsA, ObjectT clsB,
                   ModuleT (ModuleType [(''attr'', Symbol 0 [4] None)] [] None), ClassT clsC]) \<and>
   lookUpClassMember exEnv clsA ''attr'' lookupT DeclaredTypesOnly = None \<and>
   lookUpClassMember exEnv clsA ''attr'' lookupT Default =
     Some (ClassMember (Symbol 0 [2, 4] None)) \<and>
   lookUpObjectMember exEnv clsB ''attr'' lookupT DeclaredTypesOnly =
     Some (ClassMember (Symbol 0 [1, 2] None)) \<and>
   lookUpObjectMember exEnv clsB ''attr'' lookupT Default =
     Some (ClassMember (Symbol 0 [4] None)) \<and>
   lookUpClassMember exEnv clsC ''attr'' lookupT Default = None \<and>
   getDeclarationsForNameNode exEnv heapT lookupT 20 = (Some [2, 4, 1, 4], heapT)"
proof -
  have n1: "parent (nodeAt exEnv 20) = Some 21" by code_simp
  have n2: "nodeType (nodeAt exEnv 21) = MemberAccessNode" by code_simp
  have n3: "memberName (nodeAt exEnv 21) = Some 20" by code_simp
  have n4: "leftExpression (nodeAt exEnv 21) = Some 22" by code_simp
  have n5: "getExpressionType exEnv 22 =
     Some (UnionT [ClassT clsA, ObjectT clsB,
                   ModuleT (ModuleType [(''attr'', Symbol 0 [4] None)] [] None), ClassT clsC])"
    by code_simp
  have n6: "nameToken_value (nodeAt exEnv 20) = ''attr''" by code_simp
  have m1: "lookUpClassMember exEnv clsA ''attr'' lookupT DeclaredTypesOnly = None"
    by (simp add: exEnv_def clsA_def)
  have m2: "lookUpClassMember exEnv clsA ''attr'' lookupT Default =
     Some (ClassMember (Symbol 0 [2, 4] None))"
    by (simp add: exEnv_def clsA_def)
  have m3: "lookUpObjectMember exEnv clsB ''attr'' lookupT DeclaredTypesOnly =
     Some (ClassMember (Symbol 0 [1, 2] None))"
    by (simp add: exEnv_def clsB_def)
  have m4: "lookUpObjectMember exEnv clsB ''attr'' lookupT Default =
     Some (ClassMember (Symbol 0 [4] None))"
    by (simp add: exEnv_def clsB_def)
  have m5: "lookUpClassMember exEnv clsC ''attr'' lookupT Default = None"
    by (simp add: exEnv_def clsC_def)
  have v1: "variantDeclarations exEnv heapT lookupT ''attr'' (ClassT clsA) = [2, 4]" by code_simp
  have v2: "variantDeclarations exEnv heapT lookupT ''attr'' (ObjectT clsB) = [1]" by code_simp
  have v3: "variantDeclarations exEnv heapT lookupT ''attr''
     (ModuleT (ModuleType [(''attr'', Symbol 0 [4] None)] [] None)) = [4]" by code_simp
  have v4: "variantDeclarations exEnv heapT lookupT ''attr'' (ClassT clsC) = []" by code_simp
  have "getDeclarationsForNameNode exEnv heapT lookupT 20 = (Some [2, 4, 1, 4], heapT)"
    using union_member_access_concatenates [OF n1 n2 n3 n4 n5, of heapT lookupT] n6 v1 v2 v3 v4
    by simp
  with n5 m1 m2 m3 m4 m5 show ?thesis by blast
qed

subsection \<open>C9: the source name of an import-as clause\<close>

text \<open>
  C9. For a name node that is the source name of an import-from-as clause that has an
  alias, \<^verbatim>\<open>getDeclarationsForNameNode\<close> returns \<^verbatim>\<open>undefined\<close> (\<open>None\<close>) and leaves the
  store as it is; this result is not the empty list of declarations (\<open>Some []\<close>).
\<close>

theorem import_as_source_name_not_applicable:
  assumes "parent (nodeAt E nd) = Some p"
    and "nodeType (nodeAt E p) = ImportFromAsNode"
    and "aliasNode (nodeAt E p) = Some al"
    and "name (nodeAt E p) = Some nd"
  shows "getDeclarationsForNameNode E hp importLookup nd = (None, hp) \<and>
         fst (getDeclarationsForNameNode E hp importLookup nd) \<noteq> Some []"
  using assms by (simp add: getDeclarationsForNameNode_def Let_def)

text \<open>
  C9 in the example parse tree, at the source name \<open>30\<close>; the node \<open>40\<close>, a name with no
  parent and no scope, resolves to the empty list, which is another result.
\<close>

theorem import_as_source_name_not_applicable_witness:
  "parent (nodeAt exEnv 30) = Some 31 \<and>
   nodeType (nodeAt exEnv 31) = ImportFromAsNode \<and>
   aliasNode (nodeAt exEnv 31) = Some 32 \<and>
   name (nodeAt exEnv 31) = Some 30 \<and>
   getDeclarationsForNameNode exEnv heapT lookupT 30 = (None, heapT) \<and>
   fst (getDeclarationsForNameNode exEnv heapT lookupT 40) = Some []"
proof -
  have n1: "parent (nodeAt exEnv 30) = Some 31" by code_simp
  have n2: "nodeType (nodeAt exEnv 31) = ImportFromAsNode" by code_simp
  have n3: "aliasNode (nodeAt exEnv 31) = Some 32" by code_simp
  have n4: "name (nodeAt exEnv 31) = Some 30" by code_simp
  have e: "fst (getDeclarationsForNameNode exEnv heapT lookupT 40) = Some []" by code_simp
  from import_as_source_name_not_applicable [OF n1 n2 n3 n4, of heapT lookupT] n1 n2 n3 n4 e
  show ?thesis by blast
qed

subsection \<open>C10: terminal declarations and idempotence\<close>

text \<open>
  C10. On a declaration that is not an alias, or is an alias with no symbol name,
  \<^verbatim>\<open>resolveAliasDeclaration\<close> returns that declaration at its first iteration and makes
  no call of \<open>importLookup\<close> (the list of lookups is empty). And whenever it returns a
  declaration \<open>r\<close>, it returns \<open>r\<close> again on \<open>r\<close>, within the same budget; this holds
  of every declaration returned, the one returned by the cycle guard included.
\<close>

theorem resolveAlias_terminal_and_idempotent:
  "(declType (declAt hp d) \<noteq> Alias \<or> \<not> truthy (symbolName (declAt hp d)) \<longrightarrow>
      resolveAliasDeclaration (Suc n) E hp importLookup d = Some (Some d, [])) \<and>
   (map_option fst (resolveAliasDeclaration n E hp importLookup d) = Some (Some r) \<longrightarrow>
      map_option fst (resolveAliasDeclaration n E hp importLookup r) = Some (Some r))"
proof (intro conjI impI)
  assume "declType (declAt hp d) \<noteq> Alias \<or> \<not> truthy (symbolName (declAt hp d))"
  then show "resolveAliasDeclaration (Suc n) E hp importLookup d = Some (Some d, [])"
    by (simp add: resolveAliasDeclaration_def resolveAliasLoop_terminal)
next
  assume a: "map_option fst (resolveAliasDeclaration n E hp importLookup d) = Some (Some r)"
  then have "r = d \<or>
      (\<exists>m \<le> n. map_option fst (resolveAliasLoop m E hp importLookup r r [] []) = Some (Some r))"
    unfolding resolveAliasDeclaration_def by (rule resolveAliasLoop_idem)
  then show "map_option fst (resolveAliasDeclaration n E hp importLookup r) = Some (Some r)"
  proof
    assume "r = d" with a show ?thesis by simp
  next
    assume "\<exists>m \<le> n. map_option fst (resolveAliasLoop m E hp importLookup r r [] []) = Some (Some r)"
    then show ?thesis
      unfolding resolveAliasDeclaration_def using resolveAliasLoop_result_mono by blast
  qed
qed

text \<open>
  C10 at \<open>heapB\<close> (the variable \<open>3\<close>, and the alias \<open>0\<close> that resolves to it), at
  \<open>heapP\<close> (the package alias \<open>0\<close>, which has no symbol name) and at \<open>heapA\<close> (where the
  guard returns the input).
\<close>

theorem resolveAlias_terminal_and_idempotent_witness:
  "declType (declAt heapB 3) \<noteq> Alias \<and>
   resolveAliasDeclaration (Suc 0) exEnv heapB lookupB 3 = Some (Some 3, []) \<and>
   \<not> truthy (symbolName (declAt heapP 0)) \<and>
   resolveAliasDeclaration (Suc 0) exEnv heapP lookupP 0 = Some (Some 0, []) \<and>
   map_option fst (resolveAliasDeclaration 4 exEnv heapB lookupB 0) = Some (Some 3) \<and>
   map_option fst (resolveAliasDeclaration 4 exEnv heapB lookupB 3) = Some (Some 3) \<and>
   map_option fst (resolveAliasDeclaration 3 exEnv heapA lookupA 0) = Some (Some 0)"
proof -
  have k: "declType (declAt heapB 3) \<noteq> Alias" by code_simp
  have sn: "\<not> truthy (symbolName (declAt heapP 0))" by code_simp
  have r: "map_option fst (resolveAliasDeclaration 4 exEnv heapB lookupB 0) = Some (Some 3)"
    by code_simp
  have c: "map_option fst (resolveAliasDeclaration 3 exEnv heapA lookupA 0) = Some (Some 0)"
    by code_simp
  have a: "resolveAliasDeclaration (Suc 0) exEnv heapB lookupB 3 = Some (Some 3, [])"
    using resolveAlias_terminal_and_idempotent [where hp = heapB and d = 3 and n = 0
        and E = exEnv and importLookup = lookupB, THEN conjunct1] k by blast
  have b: "resolveAliasDeclaration (Suc 0) exEnv heapP lookupP 0 = Some (Some 0, [])"
    using resolveAlias_terminal_and_idempotent [where hp = heapP and d = 0 and n = 0
        and E = exEnv and importLookup = lookupP, THEN conjunct1] sn by blast
  have i: "map_option fst (resolveAliasDeclaration 4 exEnv heapB lookupB 3) = Some (Some 3)"
    using resolveAlias_terminal_and_idempotent [where hp = heapB and d = 0 and n = 4 and r = 3
        and E = exEnv and importLookup = lookupB, THEN conjunct2] r by blast
  from k a sn b r i c show ?thesis by blast
qed

end
